theory Spec2Isabelle
  imports Complex_Main "HOL-Library.Word" "HOL-Library.Multiset"
begin

section \<open>C++ integer arithmetic\<close>

text \<open>
  The C++ type \<open>int\<close> is modelled by HOL's \<open>int\<close>. Division and remainder of the
  C++ built-in operators truncate towards zero, unlike HOL's \<open>div\<close> and \<open>mod\<close>, so
  they are written out. Signed overflow is undefined behaviour in C++, so the model
  agrees with the code exactly where the code's \<open>int\<close> arithmetic stays inside the range
  of \<open>int\<close>. Every theorem below about a function that multiplies or adds \<open>int\<close>
  values states that range as a hypothesis.
\<close>

definition cdiv :: "int \<Rightarrow> int \<Rightarrow> int" where
  "cdiv a b = sgn a * sgn b * (\<bar>a\<bar> div \<bar>b\<bar>)"

definition cmod :: "int \<Rightarrow> int \<Rightarrow> int" where
  "cmod a b = a - b * cdiv a b"

text \<open>The mathematical \<open>ceil(x / w)\<close> of the specification, on integers.\<close>

definition ceil_div :: "int \<Rightarrow> int \<Rightarrow> int" where
  "ceil_div x w = - ((- x) div w)"

definition INT_MAX :: int where
  "INT_MAX = 2147483647"

text \<open>The values of the C++ type \<open>int\<close>.\<close>

definition fits_int :: "int \<Rightarrow> bool" where
  "fits_int x \<longleftrightarrow> - INT_MAX - 1 \<le> x \<and> x \<le> INT_MAX"

section \<open>The container \<open>Cabana::AoSoA\<close>\<close>

text \<open>
  The template arguments of \<open>AoSoA<DataTypes, MemorySpace, VectorLength>\<close>:
  \<open>vector_length\<close> is the static member of the same name, \<open>number_of_members\<close> is
  \<open>member_types::size\<close>. \<open>fill\<close> is the value of an element of a freshly allocated
  struct (\<open>Kokkos::resize\<close> value-initialises the elements it adds).
\<close>

record 'v layout =
  vector_length :: int
  number_of_members :: nat
  fill :: 'v

text \<open>
  A struct-of-arrays \<open>SoA<vector_length, member_types>\<close> holds one array of
  \<open>vector_length\<close> elements per member; a tuple \<open>Tuple<member_types>\<close> holds one
  value per member.
\<close>

type_synonym 'v soa = "'v list list"
type_synonym 'v tuple = "'v list"

text \<open>
  The private data of the class: \<open>_size\<close>, \<open>_capacity\<close>, \<open>_num_soa\<close> and the
  managed view \<open>_data\<close> of structs. The raw \<open>_pointers\<close> and \<open>_strides\<close> are
  addresses derived from \<open>_data\<close> by \<open>storePointersAndStrides\<close> and carry no
  information of their own.
\<close>

record 'v aosoa =
  aosoa_size :: int
  aosoa_capacity :: int
  aosoa_num_soa :: int
  aosoa_data :: "'v soa list"

datatype error = OutOfBounds | AssertionFailure | DivisionByZero

text \<open>\<open>AoSoA()\<close>: size zero, nothing allocated.\<close>

definition AoSoA_default :: "'v aosoa" where
  "AoSoA_default =
     \<lparr>aosoa_size = 0, aosoa_capacity = 0, aosoa_num_soa = 0, aosoa_data = []\<rparr>"

definition new_soa :: "'v layout \<Rightarrow> 'v soa" where
  "new_soa L = replicate (number_of_members L) (replicate (nat (vector_length L)) (fill L))"

text \<open>
  \<open>Kokkos::resize(view, k)\<close> of the Kokkos library: the view gets \<open>k\<close> entries, the
  common prefix keeps its contents, added entries are value-initialised. A failed
  allocation ends the program and is not part of the model.
\<close>

definition kokkos_resize :: "'v layout \<Rightarrow> 'v soa list \<Rightarrow> nat \<Rightarrow> 'v soa list" where
  "kokkos_resize L d k = take k d @ replicate (k - length d) (new_soa L)"

text \<open>
  \<open>void reserve(const int n)\<close>. \<open>std::floor(n / vector_length)\<close> is applied to the
  result of an integer division, which it leaves unchanged. The code computes
  \<open>num_soa_alloc * vector_length\<close> in \<open>int\<close>; the product here is the mathematical one,
  which is the code's value as long as it fits \<open>int\<close> (see \<open>request_in_range\<close>).
\<close>

definition reserve :: "'v layout \<Rightarrow> 'v aosoa \<Rightarrow> int \<Rightarrow> 'v aosoa" where
  "reserve L a n =
     (if n \<le> aosoa_capacity a then a
      else
        let q = cdiv n (vector_length L);
            num_soa_alloc = (if 0 < cmod n (vector_length L) then q + 1 else q)
        in if num_soa_alloc \<le> aosoa_num_soa a then a
           else a\<lparr>aosoa_capacity := num_soa_alloc * vector_length L,
                  aosoa_data := kokkos_resize L (aosoa_data a) (nat num_soa_alloc)\<rparr>)"

text \<open>\<open>void resize(const int n)\<close>.\<close>

definition resize :: "'v layout \<Rightarrow> 'v aosoa \<Rightarrow> int \<Rightarrow> 'v aosoa" where
  "resize L a n =
     (let a1 = reserve L a n;
          q = cdiv n (vector_length L)
      in a1\<lparr>aosoa_size := n,
             aosoa_num_soa := (if 0 < cmod n (vector_length L) then q + 1 else q)\<rparr>)"

text \<open>
  The requests for which the arithmetic of \<open>reserve\<close> and \<open>resize\<close> stays inside
  \<open>int\<close>: \<open>n\<close> is an \<open>int\<close>, and so is the capacity that a reallocation for \<open>n\<close>
  computes, which is below \<open>n + vector_length\<close>.
\<close>

definition request_in_range :: "'v layout \<Rightarrow> int \<Rightarrow> bool" where
  "request_in_range L n \<longleftrightarrow> fits_int n \<and> n + vector_length L \<le> INT_MAX + 1"

text \<open>\<open>explicit AoSoA(const int n)\<close>.\<close>

definition AoSoA_n :: "'v layout \<Rightarrow> int \<Rightarrow> 'v aosoa" where
  "AoSoA_n L n =
     resize L \<lparr>aosoa_size = n, aosoa_capacity = 0, aosoa_num_soa = 0, aosoa_data = []\<rparr> n"

text \<open>\<open>int arraySize(const int s) const\<close>.\<close>

definition arraySize :: "'v layout \<Rightarrow> 'v aosoa \<Rightarrow> int \<Rightarrow> int" where
  "arraySize L a s =
     (if s < aosoa_num_soa a - 1 then vector_length L
      else cmod (aosoa_size a) (vector_length L))"

text \<open>
  Modelled from the spec: \<open>Impl::Index<vector_length>\<close> (impl/Cabana\_Index.hpp) is not
  among the sources. The specification gives the index mapping as block index
  \<open>s = idx / blockWidth\<close> and in-block offset \<open>i = idx % blockWidth\<close>.
\<close>

definition index_s :: "int \<Rightarrow> int \<Rightarrow> int" where
  "index_s w idx = cdiv idx w"

definition index_i :: "int \<Rightarrow> int \<Rightarrow> int" where
  "index_i w idx = cmod idx w"

text \<open>
  Modelled from the spec: \<open>Impl::tupleCopy\<close> is not among the sources. The
  specification says that whole-entry get and set copy all fields. The first function
  copies lane \<open>i\<close> of every member of a struct into a tuple, the second copies every
  member of a tuple into lane \<open>i\<close> of a struct.
\<close>

definition tupleCopy_from_soa :: "nat \<Rightarrow> 'v soa \<Rightarrow> nat \<Rightarrow> 'v tuple" where
  "tupleCopy_from_soa nm src i = map (\<lambda>m. src ! m ! i) [0..<nm]"

definition tupleCopy_to_soa :: "nat \<Rightarrow> 'v soa \<Rightarrow> nat \<Rightarrow> 'v tuple \<Rightarrow> 'v soa" where
  "tupleCopy_to_soa nm dst i tpl = map (\<lambda>m. (dst ! m)[i := tpl ! m]) [0..<nm]"

text \<open>
  \<open>getTuple\<close> and \<open>setTuple\<close> access \<open>_data(index_type::s(idx))\<close> unchecked. An
  access outside the allocated structs is undefined in C++; the model returns
  \<open>OutOfBounds\<close> there.
\<close>

definition in_allocation :: "'v layout \<Rightarrow> 'v aosoa \<Rightarrow> int \<Rightarrow> bool" where
  "in_allocation L a idx \<longleftrightarrow>
     0 \<le> idx \<and> index_s (vector_length L) idx < int (length (aosoa_data a))"

definition getTuple :: "'v layout \<Rightarrow> 'v aosoa \<Rightarrow> int \<Rightarrow> error + 'v tuple" where
  "getTuple L a idx =
     (if in_allocation L a idx
      then Inr (tupleCopy_from_soa (number_of_members L)
                  (aosoa_data a ! nat (index_s (vector_length L) idx))
                  (nat (index_i (vector_length L) idx)))
      else Inl OutOfBounds)"

definition setTuple :: "'v layout \<Rightarrow> 'v aosoa \<Rightarrow> int \<Rightarrow> 'v tuple \<Rightarrow> error + 'v aosoa" where
  "setTuple L a idx tpl =
     (if in_allocation L a idx
      then Inr (a\<lparr>aosoa_data :=
                  (aosoa_data a)[nat (index_s (vector_length L) idx) :=
                     tupleCopy_to_soa (number_of_members L)
                       (aosoa_data a ! nat (index_s (vector_length L) idx))
                       (nat (index_i (vector_length L) idx)) tpl]\<rparr>)
      else Inl OutOfBounds)"

text \<open>
  Modelled from the spec: \<open>shrinkToFit\<close> is called by the particle generators but is
  not a member of the container among the sources. The specification: it reallocates to
  exactly \<open>ceil(size / blockWidth)\<close> blocks, dropping unused capacity.
\<close>

definition shrinkToFit :: "'v layout \<Rightarrow> 'v aosoa \<Rightarrow> 'v aosoa" where
  "shrinkToFit L a =
     a\<lparr>aosoa_capacity := ceil_div (aosoa_size a) (vector_length L) * vector_length L,
       aosoa_data := kokkos_resize L (aosoa_data a)
                       (nat (ceil_div (aosoa_size a) (vector_length L)))\<rparr>"

text \<open>
  The well-formedness of a container: the allocation consists of \<open>_capacity / vector_length\<close>
  structs of the layout's shape, the size fits the capacity, and \<open>_num_soa\<close> counts the
  structs that the size occupies.
\<close>

definition soa_shape :: "'v layout \<Rightarrow> 'v soa \<Rightarrow> bool" where
  "soa_shape L b \<longleftrightarrow>
     length b = number_of_members L \<and> list_all (\<lambda>arr. length arr = nat (vector_length L)) b"

definition aosoa_inv :: "'v layout \<Rightarrow> 'v aosoa \<Rightarrow> bool" where
  "aosoa_inv L a \<longleftrightarrow>
     aosoa_capacity a = int (length (aosoa_data a)) * vector_length L \<and>
     aosoa_size a \<le> aosoa_capacity a \<and>
     aosoa_num_soa a = ceil_div (aosoa_size a) (vector_length L) \<and>
     list_all (soa_shape L) (aosoa_data a)"

text \<open>The mutating operations of the container, and a run of them from the default
  constructor.\<close>

datatype 'v op = Resize int | Reserve int | SetTuple int "'v tuple"

fun apply_op :: "'v layout \<Rightarrow> 'v op \<Rightarrow> 'v aosoa \<Rightarrow> error + 'v aosoa" where
  "apply_op L (Resize n) a = Inr (resize L a n)"
| "apply_op L (Reserve n) a = Inr (reserve L a n)"
| "apply_op L (SetTuple idx tpl) a = setTuple L a idx tpl"

fun apply_ops :: "'v layout \<Rightarrow> 'v op list \<Rightarrow> 'v aosoa \<Rightarrow> error + 'v aosoa" where
  "apply_ops L [] a = Inr a"
| "apply_ops L (x # xs) a =
     (case apply_op L x a of Inl e \<Rightarrow> Inl e | Inr a' \<Rightarrow> apply_ops L xs a')"

text \<open>The operations whose \<open>int\<close> arguments keep the container's arithmetic inside
  \<open>int\<close>.\<close>

definition op_in_range :: "'v layout \<Rightarrow> 'v op \<Rightarrow> bool" where
  "op_in_range L x =
     (case x of Resize n \<Rightarrow> request_in_range L n
              | Reserve n \<Rightarrow> request_in_range L n
              | SetTuple idx t \<Rightarrow> fits_int idx)"

text \<open>Whether an operation writes the tuple at index \<open>idx\<close>.\<close>

definition overwrites :: "'v op \<Rightarrow> int \<Rightarrow> bool" where
  "overwrites x idx = (case x of SetTuple j t \<Rightarrow> j = idx | _ \<Rightarrow> False)"

text \<open>The capacities seen along a sequence of \<open>resize\<close> calls.\<close>

fun resize_capacities :: "'v layout \<Rightarrow> 'v aosoa \<Rightarrow> int list \<Rightarrow> int list" where
  "resize_capacities L a [] = [aosoa_capacity a]"
| "resize_capacities L a (n # ns) = aosoa_capacity a # resize_capacities L (resize L a n) ns"

section \<open>Grid collaborators of the particle generators\<close>

text \<open>The dimensions \<open>Dim::I\<close>, \<open>Dim::J\<close>, \<open>Dim::K\<close>.\<close>

datatype dim = DimI | DimJ | DimK

text \<open>
  Modelled from the spec: \<open>Cajita::IndexSpace\<close> is not among the sources. The
  specification describes the owned cells as integer coordinate ranges; the index
  conversion test iterates a space from \<open>min(d)\<close> up to, but excluding, \<open>max(d)\<close>.
  \<open>extent(d)\<close> is the length of the range and \<open>size()\<close> the number of its cells.
\<close>

record index_space =
  space_min :: "dim \<Rightarrow> int"
  space_max :: "dim \<Rightarrow> int"

definition extent :: "index_space \<Rightarrow> dim \<Rightarrow> int" where
  "extent S d = space_max S d - space_min S d"

definition space_size :: "index_space \<Rightarrow> int" where
  "space_size S = extent S DimI * extent S DimJ * extent S DimK"

definition wf_space :: "index_space \<Rightarrow> bool" where
  "wf_space S \<longleftrightarrow>
     space_min S DimI \<le> space_max S DimI \<and>
     space_min S DimJ \<le> space_max S DimJ \<and>
     space_min S DimK \<le> space_max S DimK"

type_synonym cell = "int \<times> int \<times> int"
type_synonym point = "real \<times> real \<times> real"

definition cells :: "index_space \<Rightarrow> cell list" where
  "cells S =
     map (\<lambda>(k, j, i). (i, j, k))
       (List.product [space_min S DimK..space_max S DimK - 1]
          (List.product [space_min S DimJ..space_max S DimJ - 1]
             [space_min S DimI..space_max S DimI - 1]))"

text \<open>
  The local grid argument of the generators, reduced to what they read from it: the
  owned local cell index space, the block id of the global grid, and the node
  coordinates and cell measure of the local mesh. Coordinates are \<open>double\<close> in the
  code and real numbers here; rounding is not modelled.
\<close>

record local_grid =
  owned_cells :: index_space
  blockId :: int
  node_coordinates :: "cell \<Rightarrow> point"
  cell_measure :: "cell \<Rightarrow> real"

text \<open>
  The random number pool of the Kokkos library (\<open>Random_XorShift64_Pool\<close>):
  \<open>pool.init(seed, n)\<close>, \<open>pool.get_state(id)\<close> and \<open>rand<..., double>::draw\<close>,
  which returns a number and advances the generator state.
\<close>

record ('p, 'g) rng =
  pool_init :: "64 word \<Rightarrow> int \<Rightarrow> 'p"
  get_state :: "'p \<Rightarrow> int \<Rightarrow> 'g"
  draw :: "'g \<Rightarrow> real \<Rightarrow> real \<Rightarrow> real \<times> 'g"

text \<open>A loop whose body may fail: the first failure ends it.\<close>

fun foldM :: "('x \<Rightarrow> 's \<Rightarrow> error + 's) \<Rightarrow> 'x list \<Rightarrow> 's \<Rightarrow> error + 's" where
  "foldM f [] s = Inr s"
| "foldM f (x # xs) s = (case f x s of Inl e \<Rightarrow> Inl e | Inr s' \<Rightarrow> foldM f xs s')"

text \<open>
  Modelled from the spec: \<open>Cajita::grid_parallel_for\<close> is not among the sources. The
  specification: a data-parallel fan-out over the owned cells with no ordering assumption
  among cells. The order in which the cells are run is the argument \<open>sched\<close>, any
  arrangement of the cells of the space; each cell's body runs as a whole.
\<close>

definition valid_schedule :: "index_space \<Rightarrow> cell list \<Rightarrow> bool" where
  "valid_schedule S sched \<longleftrightarrow> mset sched = mset (cells S)"

definition grid_parallel_for ::
  "cell list \<Rightarrow> (cell \<Rightarrow> 's \<Rightarrow> error + 's) \<Rightarrow> 's \<Rightarrow> error + 's" where
  "grid_parallel_for sched body s = foldM body sched s"

section \<open>The particle generators \<open>Cajita::createParticles\<close>\<close>

text \<open>The owned local cell id computed at the start of every cell body.\<close>

definition cell_id :: "index_space \<Rightarrow> cell \<Rightarrow> int" where
  "cell_id S c =
     (case c of (i, j, k) \<Rightarrow>
        let i_own = i - space_min S DimI;
            j_own = j - space_min S DimJ;
            k_own = k - space_min S DimK
        in i_own + extent S DimI * (j_own + k_own * extent S DimJ))"

text \<open>
  \<open>local_seed = blockId() + (seed % (blockId() + 1))\<close> with \<open>seed\<close> of type
  \<open>uint64_t\<close> and \<open>blockId()\<close> of type \<open>int\<close>: both \<open>int\<close> operands are converted to
  \<open>uint64_t\<close>. A zero divisor is undefined in C++ and an error here. The sum
  \<open>blockId() + 1\<close> is an \<open>int\<close> sum in the code and the mathematical one here; the two
  agree for a block id below \<open>INT_MAX\<close>, which the theorems about the generators assume.
\<close>

definition local_seed :: "int \<Rightarrow> 64 word \<Rightarrow> error + 64 word" where
  "local_seed b seed =
     (if (word_of_int (b + 1) :: 64 word) = 0 then Inl DivisionByZero
      else Inr (word_of_int b + seed mod word_of_int (b + 1)))"

definition coord :: "nat \<Rightarrow> point \<Rightarrow> real" where
  "coord d p = (case p of (x, y, z) \<Rightarrow> if d = 0 then x else if d = 1 then y else z)"

definition set_coord :: "nat \<Rightarrow> real \<Rightarrow> point \<Rightarrow> point" where
  "set_coord d v p =
     (case p of (x, y, z) \<Rightarrow>
        if d = 0 then (v, y, z) else if d = 1 then (x, v, z) else (x, y, v))"

text \<open>
  The position storage of the positions-only variants is a slice of \<open>size()\<close> entries
  with three coordinates each. \<open>positions(pid, d) = v\<close> is unchecked in the code; a write
  outside the storage is \<open>OutOfBounds\<close> in the model.
\<close>

definition write_position :: "point list \<Rightarrow> int \<Rightarrow> nat \<Rightarrow> real \<Rightarrow> error + point list" where
  "write_position pos pid d v =
     (if 0 \<le> pid \<and> pid < int (length pos)
      then Inr (pos[nat pid := set_coord d v (pos ! nat pid)])
      else Inl OutOfBounds)"

text \<open>\<open>static_cast<std::size_t>\<close> of a signed value, with a 64-bit \<open>size_t\<close>.\<close>

definition to_size_t :: "int \<Rightarrow> int" where
  "to_size_t x = x mod 2 ^ 64"

text \<open>
  \<open>assert(c)\<close>: a failed assertion ends the program when \<open>NDEBUG\<close> is not defined; with
  \<open>NDEBUG\<close> defined the macro expands to nothing and the condition is not evaluated.
\<close>

definition assert_fails :: "bool \<Rightarrow> bool \<Rightarrow> bool" where
  "assert_fails ndebug c \<longleftrightarrow> \<not> ndebug \<and> \<not> c"

text \<open>
  The lines shared by both record-producing variants. Modelled from the spec:
  \<open>ParticleList::getParticle\<close> and \<open>setParticle\<close> are not among the sources; the
  specification has the generators read and write whole records through the container's
  accessors. \<open>atomic_fetch_add(&count(0), 1)\<close> returns the old count, which is the slot
  of the created particle.
\<close>

definition create_particle ::
  "'v layout \<Rightarrow> (int \<Rightarrow> point \<Rightarrow> real \<Rightarrow> 'v tuple \<Rightarrow> bool \<times> 'v tuple) \<Rightarrow>
   int \<Rightarrow> point \<Rightarrow> real \<Rightarrow> int \<times> 'v aosoa \<Rightarrow> error + int \<times> 'v aosoa" where
  "create_particle L create_functor pid px pv st =
     (case st of (cnt, a) \<Rightarrow>
        case getTuple L a pid of
          Inl e \<Rightarrow> Inl e
        | Inr particle \<Rightarrow>
            (case create_functor pid px pv particle of (created, particle') \<Rightarrow>
               if created
               then (case setTuple L a cnt particle' of
                       Inl e \<Rightarrow> Inl e
                     | Inr a' \<Rightarrow> Inr (cnt + 1, a'))
               else Inr (cnt, a)))"

subsection \<open>Random policy\<close>

text \<open>The loop over \<open>d\<close> that draws the three coordinates of one point.\<close>

definition draw_point :: "('p, 'g) rng \<Rightarrow> 'g \<Rightarrow> point \<Rightarrow> point \<Rightarrow> point \<times> 'g" where
  "draw_point R rand low high =
     (case draw R rand (coord 0 low) (coord 0 high) of (x, r1) \<Rightarrow>
      case draw R r1 (coord 1 low) (coord 1 high) of (y, r2) \<Rightarrow>
      case draw R r2 (coord 2 low) (coord 2 high) of (z, r3) \<Rightarrow> ((x, y, z), r3))"

definition random_step ::
  "('p, 'g) rng \<Rightarrow> 'v layout \<Rightarrow> (int \<Rightarrow> point \<Rightarrow> real \<Rightarrow> 'v tuple \<Rightarrow> bool \<times> 'v tuple) \<Rightarrow>
   point \<Rightarrow> point \<Rightarrow> real \<Rightarrow> int \<Rightarrow> int \<Rightarrow> int \<Rightarrow> 'g \<times> int \<times> 'v aosoa \<Rightarrow>
   error + 'g \<times> int \<times> 'v aosoa" where
  "random_step R L create_functor low high pv particles_per_cell cid p st =
     (case st of (rand, cnt) \<Rightarrow>
        let pid = cid * particles_per_cell + p
        in case draw_point R rand low high of (px, rand') \<Rightarrow>
             (case create_particle L create_functor pid px pv cnt of
                Inl e \<Rightarrow> Inl e
              | Inr cnt' \<Rightarrow> Inr (rand', cnt')))"

definition random_cell ::
  "('p, 'g) rng \<Rightarrow> 'v layout \<Rightarrow> local_grid \<Rightarrow>
   (int \<Rightarrow> point \<Rightarrow> real \<Rightarrow> 'v tuple \<Rightarrow> bool \<times> 'v tuple) \<Rightarrow> 'p \<Rightarrow> int \<Rightarrow> cell \<Rightarrow>
   int \<times> 'v aosoa \<Rightarrow> error + int \<times> 'v aosoa" where
  "random_cell R L G create_functor pool particles_per_cell c st =
     (case c of (i, j, k) \<Rightarrow>
        let cid = cell_id (owned_cells G) c;
            low = node_coordinates G (i, j, k);
            high = node_coordinates G (i + 1, j + 1, k + 1);
            rand = get_state R pool cid;
            pv = cell_measure G (i, j, k) / of_int particles_per_cell
        in case foldM (random_step R L create_functor low high pv particles_per_cell cid)
                  [0..particles_per_cell - 1] (rand, st) of
             Inl e \<Rightarrow> Inl e
           | Inr (rand', st') \<Rightarrow> Inr st')"

text \<open>\<open>int createParticles(Cabana::InitRandom, exec_space, create_functor, particle_list,
  particles_per_cell, local_grid, shrink_to_fit, seed)\<close>. The result is the returned
  count and the container of the particle list.\<close>

definition createParticles_random ::
  "('p, 'g) rng \<Rightarrow> 'v layout \<Rightarrow> local_grid \<Rightarrow>
   (int \<Rightarrow> point \<Rightarrow> real \<Rightarrow> 'v tuple \<Rightarrow> bool \<times> 'v tuple) \<Rightarrow> 'v aosoa \<Rightarrow> int \<Rightarrow> bool \<Rightarrow>
   64 word \<Rightarrow> cell list \<Rightarrow> error + int \<times> 'v aosoa" where
  "createParticles_random R L G create_functor aosoa particles_per_cell shrink_to_fit seed sched =
     (case local_seed (blockId G) seed of
        Inl e \<Rightarrow> Inl e
      | Inr ls \<Rightarrow>
          let pool = pool_init R ls (space_size (owned_cells G));
              num_particles = particles_per_cell * space_size (owned_cells G);
              a1 = resize L aosoa num_particles
          in case grid_parallel_for sched
                    (random_cell R L G create_functor pool particles_per_cell) (0, a1) of
               Inl e \<Rightarrow> Inl e
             | Inr (cnt, a2) \<Rightarrow>
                 let a3 = resize L a2 cnt
                 in Inr (cnt, if shrink_to_fit then shrinkToFit L a3 else a3))"

text \<open>The positions-only variant writes each drawn coordinate straight into the
  storage.\<close>

definition random_position_step ::
  "('p, 'g) rng \<Rightarrow> point \<Rightarrow> point \<Rightarrow> int \<Rightarrow> int \<Rightarrow> int \<Rightarrow> 'g \<times> point list \<Rightarrow>
   error + 'g \<times> point list" where
  "random_position_step R low high particles_per_cell cid p st =
     (let pid = cid * particles_per_cell + p
      in foldM (\<lambda>d (rand, positions).
                  case draw R rand (coord d low) (coord d high) of (v, rand') \<Rightarrow>
                    (case write_position positions pid d v of
                       Inl e \<Rightarrow> Inl e
                     | Inr positions' \<Rightarrow> Inr (rand', positions')))
           [0, 1, 2] st)"

definition random_positions_cell ::
  "('p, 'g) rng \<Rightarrow> local_grid \<Rightarrow> 'p \<Rightarrow> int \<Rightarrow> cell \<Rightarrow> point list \<Rightarrow> error + point list" where
  "random_positions_cell R G pool particles_per_cell c positions =
     (case c of (i, j, k) \<Rightarrow>
        let cid = cell_id (owned_cells G) c;
            low = node_coordinates G (i, j, k);
            high = node_coordinates G (i + 1, j + 1, k + 1);
            rand = get_state R pool cid
        in case foldM (random_position_step R low high particles_per_cell cid)
                  [0..particles_per_cell - 1] (rand, positions) of
             Inl e \<Rightarrow> Inl e
           | Inr (rand', positions') \<Rightarrow> Inr positions')"

text \<open>\<open>void createParticles(Cabana::InitRandom, exec_space, positions,
  particles_per_cell, local_grid, seed)\<close>. The result is the position storage.\<close>

definition createParticles_random_positions ::
  "('p, 'g) rng \<Rightarrow> local_grid \<Rightarrow> bool \<Rightarrow> point list \<Rightarrow> int \<Rightarrow> 64 word \<Rightarrow> cell list \<Rightarrow>
   error + point list" where
  "createParticles_random_positions R G ndebug positions particles_per_cell seed sched =
     (case local_seed (blockId G) seed of
        Inl e \<Rightarrow> Inl e
      | Inr ls \<Rightarrow>
          let pool = pool_init R ls (space_size (owned_cells G))
          in if assert_fails ndebug
                  (int (length positions) =
                     to_size_t (particles_per_cell * space_size (owned_cells G)))
             then Inl AssertionFailure
             else grid_parallel_for sched
                    (random_positions_cell R G pool particles_per_cell) positions)"

subsection \<open>Uniform policy\<close>

text \<open>
  Both uniform variants compute \<open>int particles_per_cell = m * m * m\<close> and multiply it
  with the number of owned cells; the record-producing variant stores that product in an
  \<open>int\<close> and returns an \<open>int\<close> count. The products here are the mathematical ones,
  which are the code's values as long as they fit \<open>int\<close>; the theorems about the uniform
  variants assume that they do.
\<close>

text \<open>The three nested loops over \<open>ip\<close>, \<open>jp\<close>, \<open>kp\<close>, in the order they run.\<close>

definition uniform_candidates :: "int \<Rightarrow> (int \<times> int \<times> int) list" where
  "uniform_candidates m = List.product [0..m - 1] (List.product [0..m - 1] [0..m - 1])"

definition uniform_pid :: "int \<Rightarrow> int \<Rightarrow> int \<Rightarrow> int \<times> int \<times> int \<Rightarrow> int" where
  "uniform_pid cid particles_per_cell m q =
     (case q of (ip, jp, kp) \<Rightarrow> cid * particles_per_cell + ip + m * (jp + m * kp))"

definition uniform_spacing :: "point \<Rightarrow> point \<Rightarrow> int \<Rightarrow> point" where
  "uniform_spacing low high m =
     ((coord 0 high - coord 0 low) / of_int m,
      (coord 1 high - coord 1 low) / of_int m,
      (coord 2 high - coord 2 low) / of_int m)"

definition uniform_position :: "point \<Rightarrow> point \<Rightarrow> int \<times> int \<times> int \<Rightarrow> point" where
  "uniform_position low spacing q =
     (case q of (ip, jp, kp) \<Rightarrow>
        (0.5 * coord 0 spacing + of_int ip * coord 0 spacing + coord 0 low,
         0.5 * coord 1 spacing + of_int jp * coord 1 spacing + coord 1 low,
         0.5 * coord 2 spacing + of_int kp * coord 2 spacing + coord 2 low))"

definition uniform_cell ::
  "'v layout \<Rightarrow> local_grid \<Rightarrow> (int \<Rightarrow> point \<Rightarrow> real \<Rightarrow> 'v tuple \<Rightarrow> bool \<times> 'v tuple) \<Rightarrow>
   int \<Rightarrow> int \<Rightarrow> cell \<Rightarrow> int \<times> 'v aosoa \<Rightarrow> error + int \<times> 'v aosoa" where
  "uniform_cell L G create_functor m particles_per_cell c st =
     (case c of (i, j, k) \<Rightarrow>
        let cid = cell_id (owned_cells G) c;
            low = node_coordinates G (i, j, k);
            high = node_coordinates G (i + 1, j + 1, k + 1);
            spacing = uniform_spacing low high m;
            pv = cell_measure G (i, j, k) / of_int particles_per_cell
        in foldM (\<lambda>q. create_particle L create_functor
                         (uniform_pid cid particles_per_cell m q)
                         (uniform_position low spacing q) pv)
             (uniform_candidates m) st)"

text \<open>\<open>int createParticles(Cabana::InitUniform, exec_space, create_functor,
  particle_list, particles_per_cell_dim, local_grid, shrink_to_fit)\<close>.\<close>

definition createParticles_uniform ::
  "'v layout \<Rightarrow> local_grid \<Rightarrow> (int \<Rightarrow> point \<Rightarrow> real \<Rightarrow> 'v tuple \<Rightarrow> bool \<times> 'v tuple) \<Rightarrow>
   'v aosoa \<Rightarrow> int \<Rightarrow> bool \<Rightarrow> cell list \<Rightarrow> error + int \<times> 'v aosoa" where
  "createParticles_uniform L G create_functor aosoa m shrink_to_fit sched =
     (let particles_per_cell = m * m * m;
          num_particles = particles_per_cell * space_size (owned_cells G);
          a1 = resize L aosoa num_particles
      in case grid_parallel_for sched
                (uniform_cell L G create_functor m particles_per_cell) (0, a1) of
           Inl e \<Rightarrow> Inl e
         | Inr (cnt, a2) \<Rightarrow>
             let a3 = resize L a2 cnt
             in Inr (cnt, if shrink_to_fit then shrinkToFit L a3 else a3))"

definition uniform_positions_cell ::
  "local_grid \<Rightarrow> int \<Rightarrow> int \<Rightarrow> cell \<Rightarrow> point list \<Rightarrow> error + point list" where
  "uniform_positions_cell G m particles_per_cell c positions =
     (case c of (i, j, k) \<Rightarrow>
        let cid = cell_id (owned_cells G) c;
            low = node_coordinates G (i, j, k);
            high = node_coordinates G (i + 1, j + 1, k + 1);
            spacing = uniform_spacing low high m
        in foldM (\<lambda>q positions.
                    let pid = uniform_pid cid particles_per_cell m q;
                        px = uniform_position low spacing q
                    in case write_position positions pid 0 (coord 0 px) of
                         Inl e \<Rightarrow> Inl e
                       | Inr p1 \<Rightarrow>
                           (case write_position p1 pid 1 (coord 1 px) of
                              Inl e \<Rightarrow> Inl e
                            | Inr p2 \<Rightarrow> write_position p2 pid 2 (coord 2 px)))
             (uniform_candidates m) positions)"

text \<open>\<open>void createParticles(Cabana::InitUniform, exec_space, positions,
  particles_per_cell_dim, local_grid)\<close>.\<close>

definition createParticles_uniform_positions ::
  "local_grid \<Rightarrow> bool \<Rightarrow> point list \<Rightarrow> int \<Rightarrow> cell list \<Rightarrow> error + point list" where
  "createParticles_uniform_positions G ndebug positions m sched =
     (let particles_per_cell = m * m * m
      in if assert_fails ndebug
              (int (length positions) =
                 to_size_t (particles_per_cell * space_size (owned_cells G)))
         then Inl AssertionFailure
         else grid_parallel_for sched (uniform_positions_cell G m particles_per_cell) positions)"

section \<open>The points the random positions-only generator writes\<close>




section \<open>Concrete inputs for the examples\<close>

text \<open>Two members of type \<open>int\<close>, four lanes per struct.\<close>

definition layout4 :: "int layout" where
  "layout4 = \<lparr>vector_length = 4, number_of_members = 2, fill = 0\<rparr>"

text \<open>A container of three tuples in one struct of \<open>layout4\<close>.\<close>

definition example_aosoa :: "int aosoa" where
  "example_aosoa =
     \<lparr>aosoa_size = 3, aosoa_capacity = 4, aosoa_num_soa = 1,
      aosoa_data = [[[10, 11, 12, 0], [20, 21, 22, 0]]]\<rparr>"

text \<open>
  The single-cell grid of the specification's concrete scenario: one owned cell with
  corners \<open>[0,0,0]\<close> and \<open>[1,1,1]\<close>, on block 0.
\<close>

definition unit_grid :: local_grid where
  "unit_grid =
     \<lparr>owned_cells = \<lparr>space_min = (\<lambda>d. 0), space_max = (\<lambda>d. 1)\<rparr>,
      blockId = 0,
      node_coordinates = (\<lambda>(i, j, k). (of_int i, of_int j, of_int k)),
      cell_measure = (\<lambda>c. 1)\<rparr>"

text \<open>A toy generator pool: the state is a counter, a draw returns the lower bound
  plus the counter and advances the counter.\<close>

definition example_rng :: "(64 word, nat) rng" where
  "example_rng =
     \<lparr>pool_init = (\<lambda>s n. s),
      get_state = (\<lambda>p i. unat p + nat i),
      draw = (\<lambda>g lo hi. (lo + of_nat g, Suc g))\<rparr>"


section \<open>Properties of the integer operations\<close>

lemma cdiv_nonneg: "0 \<le> a \<Longrightarrow> 0 < b \<Longrightarrow> cdiv a b = a div b"
  by (cases "a = 0") (simp_all add: cdiv_def)

lemma cmod_nonneg: "0 \<le> a \<Longrightarrow> 0 < b \<Longrightarrow> cmod a b = a mod b"
  by (simp add: cmod_def cdiv_nonneg minus_mult_div_eq_mod)

lemma cdiv_neg: "a < 0 \<Longrightarrow> 0 < b \<Longrightarrow> cdiv a b = - ((- a) div b)"
  by (simp add: cdiv_def)

lemma cmod_neg: "a < 0 \<Longrightarrow> 0 < b \<Longrightarrow> cmod a b = - ((- a) mod b)"
  using minus_mult_div_eq_mod [of "- a" b] by (simp add: cmod_def cdiv_neg)

lemma ceil_div_pos: "0 < w \<Longrightarrow> ceil_div n w = (if n mod w = 0 then n div w else n div w + 1)"
  by (simp add: ceil_div_def zdiv_zminus1_eq_if)

lemma num_soa_ceil:
  assumes "0 < w"
  shows "(if 0 < cmod n w then cdiv n w + 1 else cdiv n w) = ceil_div n w"
proof (cases "0 \<le> n")
  case True
  have "0 \<le> n mod w" using assms by simp
  then have "0 < n mod w \<longleftrightarrow> n mod w \<noteq> 0" by linarith
  with True assms show ?thesis
    by (simp add: cdiv_nonneg cmod_nonneg ceil_div_pos)
next
  case False
  then have neg: "n < 0" by simp
  have "0 \<le> (- n) mod w" using assms by simp
  moreover have "cmod n w = - ((- n) mod w)" using neg assms by (rule cmod_neg)
  ultimately have "\<not> 0 < cmod n w" by linarith
  then show ?thesis using neg assms by (simp add: cdiv_neg ceil_div_def)
qed

lemma ceil_div_real: "ceil_div x w = \<lceil>real_of_int x / real_of_int w\<rceil>"
  by (simp add: ceil_div_def ceiling_divide_eq_div)

lemma ceil_div_mult_eq:
  "0 < w \<Longrightarrow> ceil_div x w * w = (if x mod w = 0 then x else x - x mod w + w)"
  using div_mult_mod_eq [of x w] by (auto simp: ceil_div_pos algebra_simps)

lemma ceil_div_mult_ge:
  assumes "0 < w"
  shows "x \<le> ceil_div x w * w"
proof -
  show ?thesis using assms by (simp add: ceil_div_mult_eq less_imp_le)
qed

lemma ceil_div_mult_lt:
  assumes "0 < w"
  shows "ceil_div x w * w < x + w"
proof -
  have "0 \<le> x mod w" using assms by simp
  then have "x mod w \<noteq> 0 \<Longrightarrow> 0 < x mod w" by linarith
  then show ?thesis using assms by (auto simp: ceil_div_mult_eq)
qed

lemma ceil_div_mono: "0 < w \<Longrightarrow> x \<le> y \<Longrightarrow> ceil_div x w \<le> ceil_div y w"
  by (simp add: ceil_div_def zdiv_mono1)

lemma ceil_div_mult: "0 < w \<Longrightarrow> ceil_div (k * w) w = k"
  by (simp add: ceil_div_pos)

section \<open>Properties of the container\<close>

text \<open>
  Inside the range of \<open>int\<close>: for a request \<open>n\<close> with \<open>n + vector_length\<close> not above
  \<open>INT_MAX + 1\<close>, the number of structs and the new capacity that \<open>reserve\<close>
  computes do not overflow.
\<close>

lemma reserve_int_range:
  assumes "0 < vector_length L" "0 \<le> n" "n + vector_length L \<le> INT_MAX + 1"
  shows "0 \<le> ceil_div n (vector_length L)"
    and "ceil_div n (vector_length L) * vector_length L \<le> INT_MAX"
proof -
  have "0 \<le> ceil_div 0 (vector_length L)" by (simp add: ceil_div_def)
  also have "\<dots> \<le> ceil_div n (vector_length L)" using assms(1,2) by (rule ceil_div_mono)
  finally show "0 \<le> ceil_div n (vector_length L)" .
  show "ceil_div n (vector_length L) * vector_length L \<le> INT_MAX"
    using ceil_div_mult_lt [OF assms(1), of n] assms(3) by linarith
qed

lemma soa_shape_new_soa: "soa_shape L (new_soa L)"
  by (simp add: soa_shape_def new_soa_def list_all_length)

lemma length_kokkos_resize: "length (kokkos_resize L d k) = k"
  by (simp add: kokkos_resize_def)

lemma shape_kokkos_resize:
  "list_all (soa_shape L) d \<Longrightarrow> list_all (soa_shape L) (kokkos_resize L d k)"
  by (auto simp: kokkos_resize_def list_all_iff soa_shape_new_soa dest: in_set_takeD)

lemma nth_kokkos_resize:
  "i < length d \<Longrightarrow> i < k \<Longrightarrow> kokkos_resize L d k ! i = d ! i"
  by (simp add: kokkos_resize_def nth_append)

lemma reserve_noop: "n \<le> aosoa_capacity a \<Longrightarrow> reserve L a n = a"
  by (simp add: reserve_def)

lemma inv_blocks_lt:
  assumes "0 < vector_length L" "aosoa_inv L a" "aosoa_capacity a < n"
  shows "int (length (aosoa_data a)) < ceil_div n (vector_length L)"
proof -
  have "aosoa_capacity a = int (length (aosoa_data a)) * vector_length L"
    using assms(2) by (simp add: aosoa_inv_def)
  then have "int (length (aosoa_data a)) * vector_length L
               < ceil_div n (vector_length L) * vector_length L"
    using assms(3) ceil_div_mult_ge [OF assms(1), of n] by linarith
  then show ?thesis using assms(1) by (simp only: mult_less_cancel_right_pos)
qed

lemma inv_num_soa_le:
  assumes "0 < vector_length L" "aosoa_inv L a"
  shows "aosoa_num_soa a \<le> int (length (aosoa_data a))"
proof -
  have "ceil_div (aosoa_size a) (vector_length L)
          \<le> ceil_div (int (length (aosoa_data a)) * vector_length L) (vector_length L)"
    using assms by (intro ceil_div_mono) (simp_all add: aosoa_inv_def)
  then show ?thesis using assms by (simp add: ceil_div_mult aosoa_inv_def)
qed

lemma reserve_grow:
  assumes "0 < vector_length L" "aosoa_inv L a" "aosoa_capacity a < n"
  shows "reserve L a n =
           a\<lparr>aosoa_capacity := ceil_div n (vector_length L) * vector_length L,
             aosoa_data := kokkos_resize L (aosoa_data a) (nat (ceil_div n (vector_length L)))\<rparr>"
proof -
  have "\<not> ceil_div n (vector_length L) \<le> aosoa_num_soa a"
    using inv_blocks_lt [OF assms] inv_num_soa_le [OF assms(1,2)] by linarith
  then show ?thesis
    using assms by (simp add: reserve_def Let_def num_soa_ceil)
qed

lemma inv_reserve:
  assumes "0 < vector_length L" "aosoa_inv L a"
  shows "aosoa_inv L (reserve L a n)"
proof (cases "n \<le> aosoa_capacity a")
  case True
  then show ?thesis using assms by (simp add: reserve_noop)
next
  case False
  then have lt: "aosoa_capacity a < n" by simp
  have "0 \<le> ceil_div n (vector_length L)"
    using inv_blocks_lt [OF assms lt] by linarith
  moreover have "aosoa_size a \<le> ceil_div n (vector_length L) * vector_length L"
    using assms lt ceil_div_mult_ge [of "vector_length L" n] by (simp add: aosoa_inv_def)
  ultimately show ?thesis
    using assms by (simp add: reserve_grow [OF assms lt] aosoa_inv_def length_kokkos_resize
        shape_kokkos_resize)
qed

lemma resize_fields:
  "aosoa_size (resize L a n) = n"
  "aosoa_capacity (resize L a n) = aosoa_capacity (reserve L a n)"
  "aosoa_data (resize L a n) = aosoa_data (reserve L a n)"
  "0 < vector_length L \<Longrightarrow> aosoa_num_soa (resize L a n) = ceil_div n (vector_length L)"
  by (simp_all add: resize_def Let_def num_soa_ceil)

lemma reserve_size: "aosoa_size (reserve L a n) = aosoa_size a"
  by (simp add: reserve_def Let_def)

lemma reserve_num_soa: "aosoa_num_soa (reserve L a n) = aosoa_num_soa a"
  by (simp add: reserve_def Let_def)

lemma reserve_capacity_ge:
  assumes "0 < vector_length L" "aosoa_inv L a"
  shows "n \<le> aosoa_capacity (reserve L a n)"
proof (cases "n \<le> aosoa_capacity a")
  case True
  then show ?thesis by (simp add: reserve_noop)
next
  case False
  then show ?thesis
    using assms ceil_div_mult_ge [of "vector_length L" n] by (simp add: reserve_grow)
qed

lemma reserve_capacity_mono: "0 < vector_length L \<Longrightarrow> aosoa_capacity a \<le> aosoa_capacity (reserve L a n)"
  apply (simp add: reserve_def Let_def num_soa_ceil)
  using ceil_div_mult_ge [of "vector_length L" n] by linarith

lemma inv_resize:
  assumes "0 < vector_length L" "aosoa_inv L a"
  shows "aosoa_inv L (resize L a n)"
  using inv_reserve [OF assms, of n] reserve_capacity_ge [OF assms, of n] assms(1)
  by (simp add: aosoa_inv_def resize_fields)

lemma inv_default: "aosoa_inv L AoSoA_default"
  by (simp add: aosoa_inv_def AoSoA_default_def ceil_div_def)




lemma AoSoA_n_eq: "AoSoA_n L n = resize L AoSoA_default n"
  by (simp add: AoSoA_n_def resize_def reserve_def AoSoA_default_def Let_def)

lemma capacity_le_resize_capacities:
  "0 < vector_length L \<Longrightarrow> c \<in> set (resize_capacities L a ns) \<Longrightarrow> aosoa_capacity a \<le> c"
proof (induction ns arbitrary: a)
  case Nil
  then show ?case by simp
next
  case (Cons n ns)
  have "aosoa_capacity a \<le> aosoa_capacity (resize L a n)"
    using Cons.prems(1) by (simp add: resize_fields reserve_capacity_mono)
  with Cons show ?case by fastforce
qed

lemma sorted_resize_capacities:
  "0 < vector_length L \<Longrightarrow> sorted (resize_capacities L a ns)"
proof (induction ns arbitrary: a)
  case Nil
  then show ?case by simp
next
  case (Cons n ns)
  have "\<forall>c \<in> set (resize_capacities L (resize L a n) ns). aosoa_capacity a \<le> c"
  proof
    fix c assume "c \<in> set (resize_capacities L (resize L a n) ns)"
    then have "aosoa_capacity (resize L a n) \<le> c"
      using Cons.prems by (rule capacity_le_resize_capacities[rotated])
    moreover have "aosoa_capacity a \<le> aosoa_capacity (resize L a n)"
      using Cons.prems by (simp add: resize_fields reserve_capacity_mono)
    ultimately show "aosoa_capacity a \<le> c" by linarith
  qed
  with Cons show ?case by simp
qed

text \<open>
  Claim C5. For a well-formed container and every request \<open>n \<ge> 0\<close> in range (an
  \<open>int\<close> with \<open>n + vector_length \<le> INT_MAX + 1\<close>, so that the new capacity does not
  overflow), after \<open>resize(n)\<close> the size is \<open>n\<close> and the capacity is at least \<open>n\<close>;
  along any sequence of \<open>resize\<close> calls with requests in range the capacity never
  decreases.
\<close>

theorem resize_size_capacity:
  assumes "0 < vector_length L" and "aosoa_inv L a"
  shows "(\<forall>n. 0 \<le> n \<and> request_in_range L n \<longrightarrow>
            aosoa_size (resize L a n) = n \<and> n \<le> aosoa_capacity (resize L a n)) \<and>
         (\<forall>ns. (\<forall>n\<in>set ns. request_in_range L n) \<longrightarrow>
            sorted (resize_capacities L a ns))"
  using assms by (simp add: resize_fields reserve_capacity_ge sorted_resize_capacities)

theorem resize_size_capacity_witness:
  "0 < vector_length layout4 \<and> aosoa_inv layout4 (AoSoA_default :: int aosoa) \<and>
   (0::int) \<le> 6 \<and> request_in_range layout4 6 \<and>
   request_in_range layout4 2 \<and> request_in_range layout4 9 \<and>
   aosoa_size (resize layout4 AoSoA_default 6) = 6 \<and>
   6 \<le> aosoa_capacity (resize layout4 AoSoA_default 6) \<and>
   sorted (resize_capacities layout4 AoSoA_default [6, 2, 9])"
proof -
  have w: "0 < vector_length layout4" by (simp add: layout4_def)
  have r: "(0::int) \<le> 6" "request_in_range layout4 6"
    "request_in_range layout4 2" "request_in_range layout4 9"
    by (simp_all add: request_in_range_def fits_int_def INT_MAX_def layout4_def)
  then have rs: "\<forall>n\<in>set [6, 2, 9]. request_in_range layout4 n" by simp
  note t = resize_size_capacity [OF w inv_default]
  from t rs have "sorted (resize_capacities layout4 AoSoA_default [6, 2, 9])" by blast
  moreover from t r(1,2) have "aosoa_size (resize layout4 AoSoA_default 6) = 6 \<and>
      6 \<le> aosoa_capacity (resize layout4 AoSoA_default 6)" by blast
  ultimately show ?thesis using w r inv_default by blast
qed

text \<open>
  Where \<open>arraySize\<close> is right and where it is not: it gives the vector length before the
  last struct and the remainder for a partly filled last struct, but zero for a full one.
\<close>

lemma arraySize_agrees:
  assumes "0 < vector_length L" "aosoa_inv L a" "0 < aosoa_size a"
  shows "s < aosoa_num_soa a - 1 \<Longrightarrow> arraySize L a s = vector_length L"
    and "s = aosoa_num_soa a - 1 \<Longrightarrow> aosoa_size a mod vector_length L \<noteq> 0 \<Longrightarrow>
         arraySize L a s = aosoa_size a mod vector_length L"
    and "s = aosoa_num_soa a - 1 \<Longrightarrow> aosoa_size a mod vector_length L = 0 \<Longrightarrow>
         arraySize L a s = 0"
  using assms by (simp_all add: arraySize_def cmod_nonneg)

text \<open>
  Claim C1. The claim gives \<open>arraySize\<close> of a full last block as the block width. The
  code returns \<open>_size % vector_length\<close> for the last block, which is zero when the block
  is full: with four lanes and eight tuples the second, last struct is reported as empty.
\<close>

theorem arraySize_full_last_block:
  "aosoa_size (resize layout4 AoSoA_default 8) = 8 \<and>
   aosoa_num_soa (resize layout4 AoSoA_default 8) = 2 \<and>
   arraySize layout4 (resize layout4 AoSoA_default 8) 0 = 4 \<and>
   arraySize layout4 (resize layout4 AoSoA_default 8) 1 = 0"
  by (simp add: layout4_def AoSoA_default_def resize_def reserve_def arraySize_def
      cdiv_def cmod_def Let_def)

text \<open>
  Claim C4, as stated: \<open>numBlocks = ceil(capacity / blockWidth)\<close> is kept by every
  \<open>resize\<close>. It fails when a container of capacity eight is resized to one tuple:
  \<open>_num_soa\<close> becomes one while two structs stay allocated.
\<close>

theorem num_soa_capacity_counterexample:
  "aosoa_num_soa (resize layout4 (resize layout4 AoSoA_default 8) 1)
     \<noteq> ceil_div (aosoa_capacity (resize layout4 (resize layout4 AoSoA_default 8) 1)) 4"
  by (simp add: layout4_def AoSoA_default_def resize_def reserve_def ceil_div_def
      cdiv_def cmod_def Let_def)

lemma div_less_iff_int:
  assumes "0 < (w::int)"
  shows "x div w < k \<longleftrightarrow> x < k * w"
proof
  assume "x div w < k"
  then have "x div w + 1 \<le> k" by simp
  then have "(x div w + 1) * w \<le> k * w"
    using assms by (simp add: mult_right_mono)
  moreover have "x mod w < w" using assms by simp
  moreover have "x div w * w + x mod w = x" by simp
  moreover have "(x div w + 1) * w = x div w * w + w" by (simp add: algebra_simps)
  ultimately show "x < k * w" by linarith
next
  assume lt: "x < k * w"
  show "x div w < k"
  proof (rule ccontr)
    assume "\<not> x div w < k"
    then have "k \<le> x div w" by simp
    then have "k * w \<le> x div w * w"
      using assms by (simp add: mult_right_mono)
    moreover have "0 \<le> x mod w" using assms by simp
    then have "x div w * w \<le> x"
      using div_mult_mod_eq [of x w] by linarith
    ultimately show False using lt by linarith
  qed
qed

lemma index_s_nonneg: "0 \<le> idx \<Longrightarrow> 0 < w \<Longrightarrow> index_s w idx = idx div w"
  by (simp add: index_s_def cdiv_nonneg)

lemma index_i_nonneg: "0 \<le> idx \<Longrightarrow> 0 < w \<Longrightarrow> index_i w idx = idx mod w"
  by (simp add: index_i_def cmod_nonneg)

lemma in_allocation_iff:
  "0 < vector_length L \<Longrightarrow>
   in_allocation L a idx \<longleftrightarrow> 0 \<le> idx \<and> idx < int (length (aosoa_data a)) * vector_length L"
  by (auto simp: in_allocation_def index_s_nonneg div_less_iff_int)

lemma inv_in_allocation:
  "0 < vector_length L \<Longrightarrow> aosoa_inv L a \<Longrightarrow> 0 \<le> idx \<Longrightarrow> idx < aosoa_capacity a \<Longrightarrow>
   in_allocation L a idx"
  by (simp add: in_allocation_iff aosoa_inv_def)

lemma in_allocation_block:
  "0 < vector_length L \<Longrightarrow> in_allocation L a idx \<Longrightarrow>
   nat (index_s (vector_length L) idx) < length (aosoa_data a)"
  by (auto simp: in_allocation_def index_s_nonneg nat_less_iff pos_imp_zdiv_nonneg_iff)

lemma in_allocation_lane:
  "0 < vector_length L \<Longrightarrow> in_allocation L a idx \<Longrightarrow>
   nat (index_i (vector_length L) idx) < nat (vector_length L)"
  by (auto simp: in_allocation_def index_i_nonneg nat_less_iff)

lemma inv_block_shape:
  "aosoa_inv L a \<Longrightarrow> s < length (aosoa_data a) \<Longrightarrow> soa_shape L (aosoa_data a ! s)"
  by (simp add: aosoa_inv_def list_all_length)

lemma soa_shape_member:
  "soa_shape L b \<Longrightarrow> m < number_of_members L \<Longrightarrow> length (b ! m) = nat (vector_length L)"
  by (simp add: soa_shape_def list_all_length)

lemma soa_shape_tupleCopy_to_soa:
  "soa_shape L b \<Longrightarrow> soa_shape L (tupleCopy_to_soa (number_of_members L) b i tpl)"
  by (simp add: soa_shape_def tupleCopy_to_soa_def list_all_length)

lemma tupleCopy_round_trip:
  assumes "soa_shape L b" and "i < nat (vector_length L)" and "length r = number_of_members L"
  shows "tupleCopy_from_soa (number_of_members L)
           (tupleCopy_to_soa (number_of_members L) b i r) i = r"
  using assms
  by (auto simp: tupleCopy_from_soa_def tupleCopy_to_soa_def soa_shape_member
      intro!: nth_equalityI)

lemma tupleCopy_other_lane:
  assumes "i \<noteq> j"
  shows "tupleCopy_from_soa nm (tupleCopy_to_soa nm b j t) i = tupleCopy_from_soa nm b i"
  using assms by (simp add: tupleCopy_from_soa_def tupleCopy_to_soa_def)

lemma setTuple_fields:
  assumes "setTuple L a j t = Inr a'"
  shows "aosoa_size a' = aosoa_size a" "aosoa_capacity a' = aosoa_capacity a"
    "aosoa_num_soa a' = aosoa_num_soa a" "length (aosoa_data a') = length (aosoa_data a)"
  using assms by (auto simp: setTuple_def split: if_splits)

lemma setTuple_Inr:
  "in_allocation L a j \<Longrightarrow> \<exists>a'. setTuple L a j t = Inr a'"
  by (simp add: setTuple_def)

lemma inv_setTuple:
  assumes "0 < vector_length L" "aosoa_inv L a" "setTuple L a j t = Inr a'"
  shows "aosoa_inv L a'"
proof -
  from assms(3) have al: "in_allocation L a j"
    by (simp add: setTuple_def split: if_splits)
  let ?s = "nat (index_s (vector_length L) j)"
  have "soa_shape L (aosoa_data a ! ?s)"
    using in_allocation_block [OF assms(1) al] assms(2) by (rule inv_block_shape[rotated])
  then have "soa_shape L (tupleCopy_to_soa (number_of_members L) (aosoa_data a ! ?s)
      (nat (index_i (vector_length L) j)) t)"
    by (rule soa_shape_tupleCopy_to_soa)
  then have "list_all (soa_shape L) (aosoa_data a')"
    using assms(2,3) al
    by (auto simp: setTuple_def aosoa_inv_def list_all_iff dest!: set_update_subset_insert [THEN subsetD])
  then show ?thesis
    using assms(2) setTuple_fields [OF assms(3)] by (simp add: aosoa_inv_def)
qed

lemma getTuple_setTuple_same:
  assumes "0 < vector_length L" "aosoa_inv L a" "length r = number_of_members L"
    and "setTuple L a idx r = Inr a'"
  shows "getTuple L a' idx = Inr r"
proof -
  from assms(4) have al: "in_allocation L a idx"
    by (simp add: setTuple_def split: if_splits)
  note blk = in_allocation_block [OF assms(1) al]
  have shape: "soa_shape L (aosoa_data a ! nat (index_s (vector_length L) idx))"
    using blk assms(2) by (rule inv_block_shape[rotated])
  have al': "in_allocation L a' idx"
    using al setTuple_fields(4) [OF assms(4)] by (simp add: in_allocation_def)
  show ?thesis
    using assms(4) al al' blk
      tupleCopy_round_trip [OF shape in_allocation_lane [OF assms(1) al] assms(3)]
    by (auto simp: getTuple_def setTuple_def)
qed

lemma index_pair_inject:
  assumes "0 < w" "0 \<le> x" "0 \<le> y" "x \<noteq> y"
  shows "nat (index_s w x) \<noteq> nat (index_s w y) \<or> nat (index_i w x) \<noteq> nat (index_i w y)"
proof (rule ccontr)
  assume "\<not> ?thesis"
  then have "x div w = y div w" "x mod w = y mod w"
    using assms
    by (simp_all add: index_s_nonneg index_i_nonneg eq_nat_nat_iff pos_imp_zdiv_nonneg_iff)
  then have "x = y" by (metis div_mult_mod_eq)
  with assms show False by simp
qed

lemma getTuple_setTuple_other:
  assumes "0 < vector_length L" "0 \<le> idx" "idx \<noteq> j"
    and "setTuple L a j t = Inr a'"
  shows "getTuple L a' idx = getTuple L a idx"
proof -
  let ?w = "vector_length L"
  let ?sj = "nat (index_s ?w j)" and ?si = "nat (index_s ?w idx)"
  let ?blk = "tupleCopy_to_soa (number_of_members L) (aosoa_data a ! ?sj) (nat (index_i ?w j)) t"
  from assms(4) have al: "in_allocation L a j"
    by (simp add: setTuple_def split: if_splits)
  then have "0 \<le> j" by (simp add: in_allocation_def)
  note ne = index_pair_inject [OF assms(1,2) this assms(3)]
  have data': "aosoa_data a' = (aosoa_data a)[?sj := ?blk]"
    using assms(4) al by (auto simp: setTuple_def)
  have al': "in_allocation L a' idx \<longleftrightarrow> in_allocation L a idx"
    by (simp add: in_allocation_def data')
  show ?thesis
  proof (cases "in_allocation L a idx")
    case False
    then show ?thesis using al' by (simp add: getTuple_def)
  next
    case True
    note blk = in_allocation_block [OF assms(1) True]
    have "tupleCopy_from_soa (number_of_members L) (aosoa_data a' ! ?si) (nat (index_i ?w idx))
        = tupleCopy_from_soa (number_of_members L) (aosoa_data a ! ?si) (nat (index_i ?w idx))"
    proof (cases "?si = ?sj")
      case True
      then have "nat (index_i ?w idx) \<noteq> nat (index_i ?w j)" using ne by simp
      moreover have "aosoa_data a' ! ?si = ?blk" using True blk by (simp add: data')
      ultimately show ?thesis using True by (simp add: tupleCopy_other_lane)
    next
      case False
      then show ?thesis by (simp add: data')
    qed
    then show ?thesis using True al' by (simp add: getTuple_def)
  qed
qed

lemma getTuple_Inr:
  "in_allocation L a idx \<Longrightarrow> \<exists>t. getTuple L a idx = Inr t"
  by (simp add: getTuple_def)

lemma getTuple_reserve:
  assumes "0 < vector_length L" "aosoa_inv L a" "in_allocation L a idx"
  shows "getTuple L (reserve L a n) idx = getTuple L a idx"
proof (cases "n \<le> aosoa_capacity a")
  case True
  then show ?thesis by (simp add: reserve_noop)
next
  case False
  then have lt: "aosoa_capacity a < n" by simp
  note k = inv_blocks_lt [OF assms(1,2) lt]
  note blk = in_allocation_block [OF assms(1,3)]
  have "in_allocation L (reserve L a n) idx"
    using assms(3) k by (simp add: reserve_grow [OF assms(1,2) lt] in_allocation_def
        length_kokkos_resize)
  moreover have "aosoa_data (reserve L a n) ! nat (index_s (vector_length L) idx)
      = aosoa_data a ! nat (index_s (vector_length L) idx)"
    using blk k by (simp add: reserve_grow [OF assms(1,2) lt] nth_kokkos_resize)
  ultimately show ?thesis using assms(3) by (simp add: getTuple_def)
qed

lemma getTuple_data_cong:
  "aosoa_data a = aosoa_data b \<Longrightarrow> getTuple L a idx = getTuple L b idx"
  by (simp add: getTuple_def in_allocation_def)

lemma getTuple_resize:
  assumes "0 < vector_length L" "aosoa_inv L a" "in_allocation L a idx"
  shows "getTuple L (resize L a n) idx = getTuple L a idx"
  using getTuple_reserve [OF assms, of n]
    getTuple_data_cong [of "resize L a n" "reserve L a n" L idx]
  by (simp add: resize_fields)




lemma inv_example_aosoa: "aosoa_inv layout4 example_aosoa"
  by (simp add: aosoa_inv_def example_aosoa_def layout4_def ceil_div_def soa_shape_def)

lemma inv_apply_op:
  assumes "0 < vector_length L" "aosoa_inv L a" "apply_op L x a = Inr a'"
  shows "aosoa_inv L a'"
  using assms by (cases x) (auto simp: inv_resize inv_reserve inv_setTuple)

lemma inv_apply_ops:
  assumes "0 < vector_length L"
  shows "aosoa_inv L a \<Longrightarrow> apply_ops L ops a = Inr a' \<Longrightarrow> aosoa_inv L a'"
proof (induction ops arbitrary: a)
  case Nil
  then show ?case by simp
next
  case (Cons x xs)
  from Cons.prems(2) obtain b where b: "apply_op L x a = Inr b" "apply_ops L xs b = Inr a'"
    by (auto split: sum.splits)
  from inv_apply_op [OF assms Cons.prems(1) b(1)] b(2) show ?case by (rule Cons.IH)
qed

text \<open>Every container reached from the default constructor is well-formed.\<close>

lemma reachable_inv:
  "0 < vector_length L \<Longrightarrow> apply_ops L ops AoSoA_default = Inr a \<Longrightarrow> aosoa_inv L a"
  by (rule inv_apply_ops [OF _ inv_default])

text \<open>
  Claim C3. For a well-formed container, \<open>reserve(n)\<close> changes nothing when
  \<open>n \<le> capacity\<close>. When \<open>n > capacity\<close> and the request is in range (an \<open>int\<close> with
  \<open>n + vector_length \<le> INT_MAX + 1\<close>), the new capacity is
  \<open>ceil(n / blockWidth) * blockWidth\<close>, it fits \<open>int\<close>, the allocation holds exactly
  \<open>ceil(n / blockWidth)\<close> structs, the size is kept, and every tuple at an index below the
  size is read back unchanged.
\<close>

theorem reserve_spec:
  assumes "0 < vector_length L" and "aosoa_inv L a"
  shows "(n \<le> aosoa_capacity a \<longrightarrow> reserve L a n = a) \<and>
         (aosoa_capacity a < n \<and> request_in_range L n \<longrightarrow>
            aosoa_capacity (reserve L a n) = ceil_div n (vector_length L) * vector_length L \<and>
            aosoa_capacity (reserve L a n) \<le> INT_MAX \<and>
            int (length (aosoa_data (reserve L a n))) = ceil_div n (vector_length L) \<and>
            aosoa_size (reserve L a n) = aosoa_size a \<and>
            (\<forall>idx. 0 \<le> idx \<and> idx < aosoa_size a \<longrightarrow>
               (\<exists>t. getTuple L a idx = Inr t \<and> getTuple L (reserve L a n) idx = Inr t)))"
proof (intro conjI impI allI)
  assume "n \<le> aosoa_capacity a"
  then show "reserve L a n = a" by (rule reserve_noop)
next
  assume "aosoa_capacity a < n \<and> request_in_range L n"
  then show "aosoa_capacity (reserve L a n) = ceil_div n (vector_length L) * vector_length L"
    by (simp add: reserve_grow [OF assms])
next
  assume h: "aosoa_capacity a < n \<and> request_in_range L n"
  have "0 \<le> aosoa_capacity a" using assms by (simp add: aosoa_inv_def)
  with h have "0 \<le> n" "n + vector_length L \<le> INT_MAX + 1"
    by (simp_all add: request_in_range_def)
  from reserve_int_range(2) [OF assms(1) this] h
  show "aosoa_capacity (reserve L a n) \<le> INT_MAX"
    by (simp add: reserve_grow [OF assms])
next
  assume h: "aosoa_capacity a < n \<and> request_in_range L n"
  then have "0 \<le> ceil_div n (vector_length L)"
    using inv_blocks_lt [OF assms, of n] by linarith
  with h show "int (length (aosoa_data (reserve L a n))) = ceil_div n (vector_length L)"
    by (simp add: reserve_grow [OF assms] length_kokkos_resize)
next
  show "aosoa_size (reserve L a n) = aosoa_size a" by (rule reserve_size)
next
  fix idx
  assume "0 \<le> idx \<and> idx < aosoa_size a"
  then have "in_allocation L a idx"
    using assms by (intro inv_in_allocation) (simp_all add: aosoa_inv_def)
  then show "\<exists>t. getTuple L a idx = Inr t \<and> getTuple L (reserve L a n) idx = Inr t"
    using getTuple_reserve [OF assms, of idx n] getTuple_Inr [of L a idx] by auto
qed

theorem reserve_spec_witness:
  "0 < vector_length layout4 \<and> aosoa_inv layout4 example_aosoa \<and>
   2 \<le> aosoa_capacity example_aosoa \<and> reserve layout4 example_aosoa 2 = example_aosoa \<and>
   aosoa_capacity example_aosoa < 9 \<and> request_in_range layout4 9 \<and>
   aosoa_capacity (reserve layout4 example_aosoa 9) = ceil_div 9 (vector_length layout4) * vector_length layout4 \<and>
   aosoa_capacity (reserve layout4 example_aosoa 9) \<le> INT_MAX \<and>
   int (length (aosoa_data (reserve layout4 example_aosoa 9))) = ceil_div 9 (vector_length layout4) \<and>
   getTuple layout4 example_aosoa 1 = Inr [11, 21] \<and>
   getTuple layout4 (reserve layout4 example_aosoa 9) 1 = Inr [11, 21]"
proof -
  have w: "0 < vector_length layout4" by (simp add: layout4_def)
  have c: "aosoa_capacity example_aosoa = 4" "aosoa_size example_aosoa = 3"
    by (simp_all add: example_aosoa_def)
  have r: "request_in_range layout4 9"
    by (simp add: request_in_range_def fits_int_def INT_MAX_def layout4_def)
  have g: "getTuple layout4 example_aosoa 1 = Inr [11, 21]"
    by (simp add: getTuple_def in_allocation_def index_s_def index_i_def cdiv_def cmod_def
        tupleCopy_from_soa_def example_aosoa_def layout4_def upt_rec)
  note small = reserve_spec [OF w inv_example_aosoa, of 2]
  note big = reserve_spec [OF w inv_example_aosoa, of 9]
  from big c r have "\<exists>t. getTuple layout4 example_aosoa 1 = Inr t \<and>
      getTuple layout4 (reserve layout4 example_aosoa 9) 1 = Inr t" by simp
  with g have "getTuple layout4 (reserve layout4 example_aosoa 9) 1 = Inr [11, 21]" by auto
  with small big c g w r inv_example_aosoa show ?thesis by simp
qed

lemma capacity_fits_reserve:
  assumes "0 < vector_length L" "aosoa_inv L a" "aosoa_capacity a \<le> INT_MAX"
    and "request_in_range L n"
  shows "aosoa_capacity (reserve L a n) \<le> INT_MAX"
proof (cases "n \<le> aosoa_capacity a")
  case True
  then show ?thesis using assms(3) by (simp add: reserve_noop)
next
  case False
  then have lt: "aosoa_capacity a < n" by simp
  have "0 \<le> aosoa_capacity a" using assms(1,2) by (simp add: aosoa_inv_def)
  with lt assms(4) have "0 \<le> n" "n + vector_length L \<le> INT_MAX + 1"
    by (simp_all add: request_in_range_def)
  from reserve_int_range(2) [OF assms(1) this] show ?thesis
    by (simp add: reserve_grow [OF assms(1,2) lt])
qed

lemma capacity_fits_apply_op:
  assumes "0 < vector_length L" "aosoa_inv L a" "aosoa_capacity a \<le> INT_MAX"
    and "op_in_range L x" "apply_op L x a = Inr a'"
  shows "aosoa_capacity a' \<le> INT_MAX"
proof (cases x)
  case (Resize n)
  then show ?thesis
    using assms capacity_fits_reserve [OF assms(1,2,3), of n]
    by (auto simp: op_in_range_def resize_fields)
next
  case (Reserve n)
  then show ?thesis
    using assms capacity_fits_reserve [OF assms(1,2,3), of n]
    by (auto simp: op_in_range_def)
next
  case (SetTuple j t)
  then show ?thesis using assms(3,5) by (simp add: setTuple_fields)
qed

lemma capacity_fits_apply_ops:
  assumes "0 < vector_length L"
  shows "aosoa_inv L a \<Longrightarrow> aosoa_capacity a \<le> INT_MAX \<Longrightarrow> \<forall>x\<in>set ops. op_in_range L x \<Longrightarrow>
         apply_ops L ops a = Inr a' \<Longrightarrow> aosoa_capacity a' \<le> INT_MAX"
proof (induction ops arbitrary: a)
  case Nil
  then show ?case by simp
next
  case (Cons x xs)
  from Cons.prems(4) obtain b where b: "apply_op L x a = Inr b" "apply_ops L xs b = Inr a'"
    by (auto split: sum.splits)
  have x: "op_in_range L x" and xs: "\<forall>x\<in>set xs. op_in_range L x"
    using Cons.prems(3) by simp_all
  have "aosoa_inv L b" using assms Cons.prems(1) b(1) by (rule inv_apply_op)
  moreover have "aosoa_capacity b \<le> INT_MAX"
    using assms Cons.prems(1,2) x b(1) by (rule capacity_fits_apply_op)
  ultimately show ?case using xs b(2) by (rule Cons.IH)
qed

text \<open>
  Claim C4, amended. \<open>_num_soa\<close> follows the size, not the capacity: every container
  reached from the default constructor by \<open>resize\<close>, \<open>reserve\<close> and \<open>setTuple\<close> with
  arguments in range (requests \<open>n\<close> that are \<open>int\<close> values with
  \<open>n + vector_length \<le> INT_MAX + 1\<close>) has \<open>size \<le> capacity\<close> and
  \<open>numBlocks = ceil(size / blockWidth)\<close>, which is at most \<open>ceil(capacity / blockWidth)\<close>,
  and its capacity fits \<open>int\<close>. The constructor \<open>AoSoA(n)\<close> is covered as the run
  \<open>[Resize n]\<close> (lemma \<open>AoSoA_n_eq\<close>).
\<close>

theorem num_soa_invariant:
  assumes "0 < vector_length L" and "\<forall>x\<in>set ops. op_in_range L x"
    and "apply_ops L ops AoSoA_default = Inr a"
  shows "aosoa_size a \<le> aosoa_capacity a \<and>
         aosoa_num_soa a = ceil_div (aosoa_size a) (vector_length L) \<and>
         aosoa_num_soa a \<le> ceil_div (aosoa_capacity a) (vector_length L) \<and>
         aosoa_capacity a \<le> INT_MAX"
proof -
  have inv: "aosoa_inv L a"
    using inv_apply_ops [OF assms(1) inv_default assms(3)] .
  then have "ceil_div (aosoa_size a) (vector_length L)
      \<le> ceil_div (aosoa_capacity a) (vector_length L)"
    using assms(1) by (intro ceil_div_mono) (simp_all add: aosoa_inv_def)
  moreover have "aosoa_capacity (AoSoA_default :: 'a aosoa) \<le> INT_MAX"
    by (simp add: AoSoA_default_def INT_MAX_def)
  from capacity_fits_apply_ops [OF assms(1) inv_default this assms(2,3)]
  have "aosoa_capacity a \<le> INT_MAX" .
  ultimately show ?thesis using inv by (simp add: aosoa_inv_def)
qed

theorem num_soa_invariant_witness:
  "0 < vector_length layout4 \<and>
   op_in_range layout4 (Resize 8) \<and> op_in_range layout4 (SetTuple 5 [1, 2]) \<and>
   op_in_range layout4 (Resize 1) \<and>
   apply_ops layout4 [Resize 8, SetTuple 5 [1, 2], Resize 1] AoSoA_default =
     Inr \<lparr>aosoa_size = 1, aosoa_capacity = 8, aosoa_num_soa = 1,
          aosoa_data = [[[0, 0, 0, 0], [0, 0, 0, 0]], [[0, 1, 0, 0], [0, 2, 0, 0]]]\<rparr> \<and>
   (1::int) \<le> 8 \<and> (1::int) = ceil_div 1 (vector_length layout4) \<and>
   (1::int) \<le> ceil_div 8 (vector_length layout4) \<and> (8::int) \<le> INT_MAX"
proof -
  have w: "0 < vector_length layout4" by (simp add: layout4_def)
  have rr: "op_in_range layout4 (Resize 8)" "op_in_range layout4 (SetTuple 5 [1, 2])"
    "op_in_range layout4 (Resize 1)"
    by (simp_all add: op_in_range_def request_in_range_def fits_int_def INT_MAX_def layout4_def)
  then have r: "\<forall>x\<in>set [Resize 8, SetTuple 5 [1, 2], Resize 1]. op_in_range layout4 x"
    by simp
  have run: "apply_ops layout4 [Resize 8, SetTuple 5 [1, 2], Resize 1] AoSoA_default =
     Inr \<lparr>aosoa_size = 1, aosoa_capacity = 8, aosoa_num_soa = 1,
          aosoa_data = [[[0, 0, 0, 0], [0, 0, 0, 0]], [[0, 1, 0, 0], [0, 2, 0, 0]]]\<rparr>"
    by (simp add: layout4_def AoSoA_default_def resize_def reserve_def setTuple_def
        in_allocation_def index_s_def index_i_def cdiv_def cmod_def Let_def
        kokkos_resize_def new_soa_def tupleCopy_to_soa_def upt_rec numeral_eq_Suc)
  from num_soa_invariant [OF w r run] w rr run show ?thesis by simp
qed

lemma capacity_apply_op_mono:
  assumes "0 < vector_length L" "apply_op L x a = Inr a'"
  shows "aosoa_capacity a \<le> aosoa_capacity a'"
  using assms
  by (cases x) (auto simp: resize_fields reserve_capacity_mono setTuple_fields)

lemma getTuple_apply_op:
  assumes "0 < vector_length L" "aosoa_inv L a" "in_allocation L a idx"
    and "\<not> overwrites x idx" "apply_op L x a = Inr a'"
  shows "getTuple L a' idx = getTuple L a idx"
proof (cases x)
  case (Resize n)
  then show ?thesis using assms by (auto simp: getTuple_resize)
next
  case (Reserve n)
  then show ?thesis using assms by (auto simp: getTuple_reserve)
next
  case (SetTuple j t)
  then have "idx \<noteq> j" "setTuple L a j t = Inr a'"
    using assms(4,5) by (simp_all add: overwrites_def)
  moreover have "0 \<le> idx" using assms(3) by (simp add: in_allocation_def)
  ultimately show ?thesis using assms(1) by (intro getTuple_setTuple_other)
qed

lemma getTuple_apply_ops:
  assumes "0 < vector_length L"
  shows "aosoa_inv L a \<Longrightarrow> getTuple L a idx = Inr r \<Longrightarrow> \<forall>x\<in>set ops. \<not> overwrites x idx \<Longrightarrow>
         apply_ops L ops a = Inr a' \<Longrightarrow> getTuple L a' idx = Inr r"
proof (induction ops arbitrary: a)
  case Nil
  then show ?case by simp
next
  case (Cons x xs)
  from Cons.prems(4) obtain b where b: "apply_op L x a = Inr b" "apply_ops L xs b = Inr a'"
    by (auto split: sum.splits)
  have al: "in_allocation L a idx"
    using Cons.prems(2) by (simp add: getTuple_def split: if_splits)
  have "\<not> overwrites x idx" using Cons.prems(3) by simp
  from getTuple_apply_op [OF assms Cons.prems(1) al this b(1)]
  have "getTuple L b idx = Inr r" using Cons.prems(2) by simp
  moreover have "aosoa_inv L b" using assms Cons.prems(1) b(1) by (rule inv_apply_op)
  moreover have "\<forall>x\<in>set xs. \<not> overwrites x idx" using Cons.prems(3) by simp
  ultimately show ?case using b(2) by (intro Cons.IH)
qed

text \<open>
  Claim C8. In a well-formed container, writing a record \<open>r\<close> of the container's
  members at a valid index and reading that index gives \<open>r\<close> back, member by member
  (the tuples are equal as lists of member values). The same holds after any further run
  of \<open>resize\<close>, \<open>reserve\<close> and writes to other indices that leaves the capacity as it
  was; no operation lowers the capacity, so such a run consists of capacity-preserving
  operations only.
\<close>

theorem record_round_trip:
  assumes "0 < vector_length L" and "aosoa_inv L a"
    and "0 \<le> idx" and "idx < aosoa_size a"
    and "length r = number_of_members L"
  shows "\<exists>a1. setTuple L a idx r = Inr a1 \<and> getTuple L a1 idx = Inr r \<and>
           (\<forall>ops a2. apply_ops L ops a1 = Inr a2 \<and> (\<forall>x\<in>set ops. \<not> overwrites x idx) \<and>
                      aosoa_capacity a2 = aosoa_capacity a1
                      \<longrightarrow> getTuple L a2 idx = Inr r)"
proof -
  have "in_allocation L a idx"
    using assms by (intro inv_in_allocation) (simp_all add: aosoa_inv_def)
  then obtain a1 where a1: "setTuple L a idx r = Inr a1"
    using setTuple_Inr by blast
  have get: "getTuple L a1 idx = Inr r"
    using assms(1,2,5) a1 by (rule getTuple_setTuple_same)
  have inv1: "aosoa_inv L a1"
    using assms(1,2) a1 by (rule inv_setTuple)
  have "getTuple L a2 idx = Inr r"
    if "apply_ops L ops a1 = Inr a2" "\<forall>x\<in>set ops. \<not> overwrites x idx" for ops a2
    using assms(1) inv1 get that(2,1) by (rule getTuple_apply_ops)
  with a1 get show ?thesis by blast
qed

theorem record_round_trip_witness:
  "0 < vector_length layout4 \<and> aosoa_inv layout4 example_aosoa \<and>
   (0::int) \<le> 2 \<and> 2 < aosoa_size example_aosoa \<and>
   length [7, 8 :: int] = number_of_members layout4 \<and>
   setTuple layout4 example_aosoa 2 [7, 8] =
     Inr (example_aosoa\<lparr>aosoa_data := [[[10, 11, 7, 0], [20, 21, 8, 0]]]\<rparr>) \<and>
   apply_ops layout4 [Resize 1, SetTuple 0 [5, 6], Reserve 3]
       (example_aosoa\<lparr>aosoa_data := [[[10, 11, 7, 0], [20, 21, 8, 0]]]\<rparr>) =
     Inr \<lparr>aosoa_size = 1, aosoa_capacity = 4, aosoa_num_soa = 1,
          aosoa_data = [[[5, 11, 7, 0], [6, 21, 8, 0]]]\<rparr> \<and>
   getTuple layout4 \<lparr>aosoa_size = 1, aosoa_capacity = 4, aosoa_num_soa = 1,
          aosoa_data = [[[5, 11, 7, 0], [6, 21, 8, 0]]]\<rparr> 2 = Inr [7, 8]"
proof -
  let ?a1 = "example_aosoa\<lparr>aosoa_data := [[[10, 11, 7, 0], [20, 21, 8, 0]]]\<rparr>"
  let ?a2 = "\<lparr>aosoa_size = 1, aosoa_capacity = 4, aosoa_num_soa = 1,
          aosoa_data = [[[5, 11, 7, 0], [6, 21, 8, 0 :: int]]]\<rparr>"
  let ?ops = "[Resize 1, SetTuple 0 [5, 6], Reserve 3] :: int op list"
  have w: "0 < vector_length layout4" by (simp add: layout4_def)
  have h: "(0::int) \<le> 2" "2 < aosoa_size example_aosoa"
    "length [7, 8 :: int] = number_of_members layout4"
    by (simp_all add: example_aosoa_def layout4_def)
  have set: "setTuple layout4 example_aosoa 2 [7, 8] = Inr ?a1"
    by (simp add: setTuple_def in_allocation_def index_s_def index_i_def cdiv_def cmod_def
        tupleCopy_to_soa_def example_aosoa_def layout4_def upt_rec numeral_eq_Suc)
  have run: "apply_ops layout4 ?ops ?a1 = Inr ?a2"
    by (simp add: layout4_def example_aosoa_def resize_def reserve_def setTuple_def
        in_allocation_def index_s_def index_i_def cdiv_def cmod_def Let_def
        tupleCopy_to_soa_def upt_rec numeral_eq_Suc)
  have ops: "\<forall>x\<in>set ?ops. \<not> overwrites x 2" by (simp add: overwrites_def)
  have cap: "aosoa_capacity ?a2 = aosoa_capacity ?a1" by (simp add: example_aosoa_def)
  from record_round_trip [OF w inv_example_aosoa h]
  obtain a1 where a1: "setTuple layout4 example_aosoa 2 [7, 8] = Inr a1"
    and rest: "\<forall>ops a2. apply_ops layout4 ops a1 = Inr a2 \<and> (\<forall>x\<in>set ops. \<not> overwrites x 2) \<and>
                      aosoa_capacity a2 = aosoa_capacity a1
                      \<longrightarrow> getTuple layout4 a2 2 = Inr [7, 8]"
    by blast
  from a1 set have "a1 = ?a1" by simp
  with rest run ops cap have "getTuple layout4 ?a2 2 = Inr [7, 8]" by blast
  with w inv_example_aosoa h set run show ?thesis by blast
qed

text \<open>
  Claim C9. For every block width \<open>w > 0\<close> and every logical index \<open>idx \<ge> 0\<close>, block
  index and offset recombine to \<open>idx\<close>, and the mapping is a bijection between the
  logical indices and the pairs of a block index and an offset below \<open>w\<close>.
\<close>

theorem index_bijection:
  assumes "0 < w"
  shows "(\<forall>idx\<ge>0. index_s w idx * w + index_i w idx = idx) \<and>
         bij_betw (\<lambda>idx. (index_s w idx, index_i w idx)) {0..} ({0..} \<times> {0..<w})"
proof
  show "\<forall>idx\<ge>0. index_s w idx * w + index_i w idx = idx"
    using assms by (simp add: index_s_nonneg index_i_nonneg)
  show "bij_betw (\<lambda>idx. (index_s w idx, index_i w idx)) {0..} ({0..} \<times> {0..<w})"
  proof (rule bij_betw_byWitness [where f' = "\<lambda>(s, i). s * w + i"])
    show "\<forall>idx\<in>{0..}. (case (index_s w idx, index_i w idx) of (s, i) \<Rightarrow> s * w + i) = idx"
      using assms by (simp add: index_s_nonneg index_i_nonneg)
    show "\<forall>p\<in>{0..} \<times> {0..<w}.
            (index_s w (case p of (s, i) \<Rightarrow> s * w + i),
             index_i w (case p of (s, i) \<Rightarrow> s * w + i)) = p"
      using assms by (auto simp: index_s_nonneg index_i_nonneg)
    show "(\<lambda>idx. (index_s w idx, index_i w idx)) ` {0..} \<subseteq> {0..} \<times> {0..<w}"
      using assms by (auto simp: index_s_nonneg index_i_nonneg pos_imp_zdiv_nonneg_iff)
    show "(\<lambda>(s, i). s * w + i) ` ({0..} \<times> {0..<w}) \<subseteq> {0..}"
      using assms by auto
  qed
qed

theorem index_bijection_witness:
  "(0::int) < 4 \<and> (0::int) \<le> 10 \<and> index_s 4 10 * 4 + index_i 4 10 = 10 \<and>
   bij_betw (\<lambda>idx. (index_s 4 idx, index_i 4 idx)) {0..} ({0..} \<times> {0..<4})"
proof -
  have w: "(0::int) < 4" by simp
  from index_bijection [OF w] show ?thesis by simp
qed

section \<open>Properties of the particle generators\<close>

lemma local_seed_block_zero: "local_seed 0 seed = Inr 0"
  by (simp add: local_seed_def)

lemma local_seed_Inr:
  assumes "0 \<le> b" "b < INT_MAX"
  shows "\<exists>ls. local_seed b seed = Inr ls"
proof -
  have "\<not> (2 ^ 64 :: int) dvd b + 1"
    using assms by (intro zdvd_not_zless) (simp_all add: INT_MAX_def)
  then have "(word_of_int (b + 1) :: 64 word) \<noteq> 0"
    unfolding word_of_int_eq_0_iff by simp
  then show ?thesis by (simp add: local_seed_def)
qed

text \<open>
  Claim C10. On block 0 the local seed is 0 whatever seed the caller passes, so both
  random generators return the same result for any two seeds.
\<close>

theorem seed_ignored_on_block_zero:
  "local_seed 0 seed1 = Inr 0 \<and>
   createParticles_random_positions R (G\<lparr>blockId := 0\<rparr>) ndebug positions ppc seed1 sched =
   createParticles_random_positions R (G\<lparr>blockId := 0\<rparr>) ndebug positions ppc seed2 sched \<and>
   createParticles_random R L (G\<lparr>blockId := 0\<rparr>) create_functor aosoa ppc shrink seed1 sched =
   createParticles_random R L (G\<lparr>blockId := 0\<rparr>) create_functor aosoa ppc shrink seed2 sched"
  by (simp add: createParticles_random_positions_def createParticles_random_def
      local_seed_block_zero)

text \<open>
  Claim C7, as stated: a storage whose length differs from the number of particles is
  reported and never silently used. With \<open>NDEBUG\<close> defined the assertion is compiled
  out: on the unit grid with one particle per cell and a storage of two entries the
  uniform generator runs to the end and writes the first entry.
\<close>

theorem positions_size_unchecked_counterexample:
  "int (length ([(0, 0, 0), (9, 9, 9)] :: point list)) \<noteq>
     to_size_t (1 * 1 * 1 * space_size (owned_cells unit_grid)) \<and>
   createParticles_uniform_positions unit_grid True [(0, 0, 0), (9, 9, 9)] 1 [(0, 0, 0)] =
     Inr [(1 / 2, 1 / 2, 1 / 2), (9, 9, 9)]"
  by (simp add: createParticles_uniform_positions_def assert_fails_def to_size_t_def
      space_size_def extent_def unit_grid_def grid_parallel_for_def uniform_positions_cell_def
      cell_id_def uniform_candidates_def uniform_pid_def uniform_spacing_def
      uniform_position_def coord_def set_coord_def write_position_def Let_def upto.simps)

text \<open>
  Claim C7, amended. When assertions are enabled (\<open>NDEBUG\<close> not defined) and the counts
  fit \<open>int\<close> (for the uniform variant \<open>m * m * m\<close> and its product with the number of
  owned cells, for the random variant the product of the particles per cell with the
  number of owned cells), a storage whose length differs from the number of owned cells
  times the particles per cell makes both positions-only generators fail with the
  assertion before any cell is run. A product \<open>m * m * m\<close> that fits \<open>int\<close> has
  \<open>m * m\<close> fit as well.
\<close>

theorem positions_size_asserted:
  assumes "\<not> ndebug"
  shows "(fits_int (m * m * m) \<and> fits_int (m * m * m * space_size (owned_cells G)) \<and>
          int (length positions) \<noteq> to_size_t (m * m * m * space_size (owned_cells G)) \<longrightarrow>
            createParticles_uniform_positions G ndebug positions m sched = Inl AssertionFailure) \<and>
         (fits_int (ppc * space_size (owned_cells G)) \<and>
          int (length positions) \<noteq> to_size_t (ppc * space_size (owned_cells G)) \<and>
          0 \<le> blockId G \<and> blockId G < INT_MAX \<longrightarrow>
            createParticles_random_positions R G ndebug positions ppc seed sched =
              Inl AssertionFailure)"
proof (intro conjI impI)
  assume "fits_int (m * m * m) \<and> fits_int (m * m * m * space_size (owned_cells G)) \<and>
          int (length positions) \<noteq> to_size_t (m * m * m * space_size (owned_cells G))"
  then show "createParticles_uniform_positions G ndebug positions m sched = Inl AssertionFailure"
    using assms by (simp add: createParticles_uniform_positions_def assert_fails_def)
next
  assume a: "fits_int (ppc * space_size (owned_cells G)) \<and>
          int (length positions) \<noteq> to_size_t (ppc * space_size (owned_cells G)) \<and>
          0 \<le> blockId G \<and> blockId G < INT_MAX"
  then obtain ls where "local_seed (blockId G) seed = Inr ls"
    using local_seed_Inr by blast
  then show "createParticles_random_positions R G ndebug positions ppc seed sched =
              Inl AssertionFailure"
    using assms a by (simp add: createParticles_random_positions_def assert_fails_def)
qed

theorem positions_size_asserted_witness:
  "\<not> False \<and>
   fits_int (1 * 1 * 1) \<and> fits_int (1 * 1 * 1 * space_size (owned_cells unit_grid)) \<and>
   int (length ([(0, 0, 0), (9, 9, 9)] :: point list)) \<noteq>
     to_size_t (1 * 1 * 1 * space_size (owned_cells unit_grid)) \<and>
   createParticles_uniform_positions unit_grid False [(0, 0, 0), (9, 9, 9)] 1 [(0, 0, 0)] =
     Inl AssertionFailure \<and>
   fits_int (1 * space_size (owned_cells unit_grid)) \<and>
   int (length ([(0, 0, 0), (9, 9, 9)] :: point list)) \<noteq>
     to_size_t (1 * space_size (owned_cells unit_grid)) \<and>
   0 \<le> blockId unit_grid \<and> blockId unit_grid < INT_MAX \<and>
   createParticles_random_positions example_rng unit_grid False [(0, 0, 0), (9, 9, 9)] 1 123456
       [(0, 0, 0)] = Inl AssertionFailure"
proof -
  have sz: "space_size (owned_cells unit_grid) = 1"
    by (simp add: space_size_def extent_def unit_grid_def)
  have fit: "fits_int (1 * 1 * 1)" "fits_int (1 * 1 * 1 * space_size (owned_cells unit_grid))"
    "fits_int (1 * space_size (owned_cells unit_grid))"
    by (simp_all add: sz fits_int_def INT_MAX_def)
  have len: "int (length ([(0, 0, 0), (9, 9, 9)] :: point list)) \<noteq>
     to_size_t (1 * 1 * 1 * space_size (owned_cells unit_grid))"
    "int (length ([(0, 0, 0), (9, 9, 9)] :: point list)) \<noteq>
     to_size_t (1 * space_size (owned_cells unit_grid))"
    by (simp_all add: sz to_size_t_def)
  have b: "0 \<le> blockId unit_grid" "blockId unit_grid < INT_MAX"
    by (simp_all add: unit_grid_def INT_MAX_def)
  have nd: "\<not> False" by simp
  from positions_size_asserted [OF nd, of 1 unit_grid "[(0, 0, 0), (9, 9, 9)]" "[(0, 0, 0)]" 1
      example_rng 123456] fit len b
  show ?thesis by blast
qed

text \<open>
  The concrete scenario of the specification: one cell with corners \<open>[0,0,0]\<close> and
  \<open>[1,1,1]\<close>, two particles per dimension; the eight positions are the sub-cell centres.
\<close>

lemma uniform_positions_unit_cell:
  "createParticles_uniform_positions unit_grid False (replicate 8 (0, 0, 0)) 2 [(0, 0, 0)] =
     Inr [(1 / 4, 1 / 4, 1 / 4), (3 / 4, 1 / 4, 1 / 4), (1 / 4, 3 / 4, 1 / 4), (3 / 4, 3 / 4, 1 / 4),
          (1 / 4, 1 / 4, 3 / 4), (3 / 4, 1 / 4, 3 / 4), (1 / 4, 3 / 4, 3 / 4), (3 / 4, 3 / 4, 3 / 4)]"
  by (simp add: createParticles_uniform_positions_def assert_fails_def to_size_t_def
      space_size_def extent_def unit_grid_def grid_parallel_for_def uniform_positions_cell_def
      cell_id_def uniform_candidates_def uniform_pid_def uniform_spacing_def
      uniform_position_def coord_def set_coord_def write_position_def Let_def upto.simps
      numeral_eq_Suc)

lemma foldM_counting:
  assumes "0 \<le> w"
  shows "(\<forall>x\<in>set xs. \<forall>c a. P a \<and> 0 \<le> c \<and> c + w \<le> hi \<longrightarrow>
            (\<exists>a'. f x (c, a) = Inr (c + w, a') \<and> P a')) \<Longrightarrow>
         P a \<Longrightarrow> 0 \<le> c \<Longrightarrow> c + int (length xs) * w \<le> hi \<Longrightarrow>
         \<exists>a'. foldM f xs (c, a) = Inr (c + int (length xs) * w, a') \<and> P a'"
proof (induction xs arbitrary: c a)
  case Nil
  then show ?case by simp
next
  case (Cons x xs)
  have "0 \<le> int (length xs) * w" using assms by simp
  moreover have "c + (int (length xs) * w + w) \<le> hi"
    using Cons.prems(4) by (simp add: algebra_simps)
  ultimately have cw: "c + w \<le> hi" by linarith
  from Cons.prems(1)
  have "\<forall>c a. P a \<and> 0 \<le> c \<and> c + w \<le> hi \<longrightarrow> (\<exists>a'. f x (c, a) = Inr (c + w, a') \<and> P a')"
    by simp
  then obtain a1 where a1: "f x (c, a) = Inr (c + w, a1)" "P a1"
    using Cons.prems(2,3) cw by blast
  have "\<exists>a'. foldM f xs (c + w, a1) = Inr (c + w + int (length xs) * w, a') \<and> P a'"
  proof (rule Cons.IH)
    show "\<forall>x\<in>set xs. \<forall>c a. P a \<and> 0 \<le> c \<and> c + w \<le> hi \<longrightarrow>
            (\<exists>a'. f x (c, a) = Inr (c + w, a') \<and> P a')"
      using Cons.prems(1) by simp
    show "P a1" by (rule a1(2))
    show "0 \<le> c + w" using Cons.prems(3) assms by simp
    show "c + w + int (length xs) * w \<le> hi"
      using Cons.prems(4) by (simp add: algebra_simps)
  qed
  moreover have "c + int (length (x # xs)) * w = c + w + int (length xs) * w"
    by (simp add: algebra_simps)
  ultimately show ?case using a1(1) by (simp add: add.assoc)
qed

lemma create_particle_accept:
  assumes "0 < vector_length L" "aosoa_inv L a"
    and "0 \<le> pid" "pid < aosoa_capacity a" "0 \<le> c" "c < aosoa_capacity a"
    and "\<forall>pid px pv p. fst (create_functor pid px pv p)"
  shows "\<exists>a'. create_particle L create_functor pid px pv (c, a) = Inr (c + 1, a') \<and>
           aosoa_inv L a' \<and> aosoa_capacity a' = aosoa_capacity a"
proof -
  obtain t where t: "getTuple L a pid = Inr t"
    using inv_in_allocation [OF assms(1,2,3,4)] getTuple_Inr by blast
  obtain p' where p': "create_functor pid px pv t = (True, p')"
    using assms(7) by (metis prod.collapse)
  obtain a' where a': "setTuple L a c p' = Inr a'"
    using inv_in_allocation [OF assms(1,2,5,6)] setTuple_Inr by blast
  have "aosoa_inv L a'" using assms(1,2) a' by (rule inv_setTuple)
  moreover have "aosoa_capacity a' = aosoa_capacity a" using a' by (rule setTuple_fields)
  moreover have "create_particle L create_functor pid px pv (c, a) = Inr (c + 1, a')"
    by (simp add: create_particle_def t p' a')
  ultimately show ?thesis by blast
qed

lemma mixed_radix_bound:
  assumes "0 \<le> (x::int)" "x < A" "0 \<le> y" "y < B"
  shows "0 \<le> x + A * y" "x + A * y < A * B"
proof -
  have A: "0 < A" using assms by linarith
  then show "0 \<le> x + A * y" using assms by simp
  have "A * y \<le> A * (B - 1)" using A assms by (intro mult_left_mono) simp_all
  then show "x + A * y < A * B" using assms by (simp add: algebra_simps)
qed

lemma length_upto_zero: "length [0..m - 1] = nat m"
  by simp

lemma length_uniform_candidates:
  "0 \<le> m \<Longrightarrow> int (length (uniform_candidates m)) = m * m * m"
  by (simp add: uniform_candidates_def)

lemma uniform_local_bound:
  assumes "q \<in> set (uniform_candidates m)"
  shows "0 \<le> uniform_pid cid ppc m q - cid * ppc"
    "uniform_pid cid ppc m q - cid * ppc < m * m * m"
proof -
  obtain ip jp kp where q: "q = (ip, jp, kp)" by (cases q)
  with assms have r: "0 \<le> ip" "ip < m" "0 \<le> jp" "jp < m" "0 \<le> kp" "kp < m"
    by (auto simp: uniform_candidates_def)
  note inner = mixed_radix_bound [OF r(3,4,5,6)]
  note outer = mixed_radix_bound [OF r(1,2) inner]
  show "0 \<le> uniform_pid cid ppc m q - cid * ppc"
    using outer(1) by (simp add: q uniform_pid_def)
  show "uniform_pid cid ppc m q - cid * ppc < m * m * m"
    using outer(2) by (simp add: q uniform_pid_def algebra_simps)
qed

lemma cell_id_bound:
  assumes "c \<in> set (cells S)"
  shows "0 \<le> cell_id S c" "cell_id S c < space_size S"
proof -
  obtain i j k where c: "c = (i, j, k)" by (cases c)
  with assms have r:
    "0 \<le> i - space_min S DimI" "i - space_min S DimI < extent S DimI"
    "0 \<le> j - space_min S DimJ" "j - space_min S DimJ < extent S DimJ"
    "0 \<le> k - space_min S DimK" "k - space_min S DimK < extent S DimK"
    by (auto simp: cells_def extent_def)
  note inner = mixed_radix_bound [OF r(3,4,5,6)]
  note outer = mixed_radix_bound [OF r(1,2) inner]
  show "0 \<le> cell_id S c"
    using outer(1) by (simp add: c cell_id_def Let_def algebra_simps)
  show "cell_id S c < space_size S"
    using outer(2) by (simp add: c cell_id_def Let_def space_size_def algebra_simps)
qed

lemma length_cells:
  "wf_space S \<Longrightarrow> int (length (cells S)) = space_size S"
  by (simp add: cells_def space_size_def extent_def wf_space_def algebra_simps)

lemma uniform_cell_accept:
  assumes w: "0 < vector_length L" and m: "0 \<le> m"
    and acc: "\<forall>pid px pv p. fst (create_functor pid px pv p)"
    and c: "c \<in> set (cells (owned_cells G))"
    and inv: "aosoa_inv L a" and cap: "m * m * m * space_size (owned_cells G) \<le> aosoa_capacity a"
    and cnt: "0 \<le> cnt" "cnt + m * m * m \<le> m * m * m * space_size (owned_cells G)"
  shows "\<exists>a'. uniform_cell L G create_functor m (m * m * m) c (cnt, a) = Inr (cnt + m * m * m, a') \<and>
           aosoa_inv L a' \<and> m * m * m * space_size (owned_cells G) \<le> aosoa_capacity a'"
proof -
  let ?N = "m * m * m * space_size (owned_cells G)"
  let ?cid = "cell_id (owned_cells G) c"
  let ?P = "\<lambda>a. aosoa_inv L a \<and> ?N \<le> aosoa_capacity a"
  obtain px pv where cell: "\<And>st. uniform_cell L G create_functor m (m * m * m) c st =
      foldM (\<lambda>q. create_particle L create_functor (uniform_pid ?cid (m * m * m) m q) (px q) pv)
        (uniform_candidates m) st"
    by (cases c) (simp add: uniform_cell_def Let_def)
  have ppc0: "0 \<le> m * m * m" using m by simp
  have base: "0 \<le> ?cid * (m * m * m)" "(?cid + 1) * (m * m * m) \<le> ?N"
  proof -
    show "0 \<le> ?cid * (m * m * m)" using cell_id_bound(1) [OF c] ppc0 by simp
    have "?cid + 1 \<le> space_size (owned_cells G)" using cell_id_bound(2) [OF c] by simp
    then have "(?cid + 1) * (m * m * m) \<le> space_size (owned_cells G) * (m * m * m)"
      using ppc0 by (rule mult_right_mono)
    then show "(?cid + 1) * (m * m * m) \<le> ?N" by (simp add: algebra_simps)
  qed
  have step: "\<forall>q\<in>set (uniform_candidates m). \<forall>k b. ?P b \<and> 0 \<le> k \<and> k + 1 \<le> ?N \<longrightarrow>
      (\<exists>b'. create_particle L create_functor (uniform_pid ?cid (m * m * m) m q) (px q) pv (k, b)
               = Inr (k + 1, b') \<and> ?P b')"
  proof (intro ballI allI impI)
    fix q k b
    assume q: "q \<in> set (uniform_candidates m)" and h: "?P b \<and> 0 \<le> k \<and> k + 1 \<le> ?N"
    let ?pid = "uniform_pid ?cid (m * m * m) m q"
    note loc = uniform_local_bound [OF q, of ?cid "m * m * m"]
    have "0 \<le> ?pid" using loc(1) base(1) by linarith
    moreover have "?pid < aosoa_capacity b"
      using loc(2) base(2) h by (simp add: algebra_simps)
    moreover have "k < aosoa_capacity b" using h by linarith
    ultimately obtain b' where
      "create_particle L create_functor ?pid (px q) pv (k, b) = Inr (k + 1, b')"
      "aosoa_inv L b'" "aosoa_capacity b' = aosoa_capacity b"
      using create_particle_accept [OF w _ _ _ _ _ acc, of b ?pid k "px q" pv] h by blast
    then show "\<exists>b'. create_particle L create_functor ?pid (px q) pv (k, b) = Inr (k + 1, b') \<and> ?P b'"
      using h by auto
  qed
  have "\<exists>a'. foldM (\<lambda>q. create_particle L create_functor (uniform_pid ?cid (m * m * m) m q) (px q) pv)
                (uniform_candidates m) (cnt, a)
              = Inr (cnt + int (length (uniform_candidates m)) * 1, a') \<and> ?P a'"
    using inv cap cnt by (intro foldM_counting [OF _ step]) (simp_all add: length_uniform_candidates m)
  then show ?thesis by (simp add: cell length_uniform_candidates m)
qed


lemma shrinkToFit_size: "aosoa_size (shrinkToFit L a) = aosoa_size a"
  by (simp add: shrinkToFit_def)

lemma valid_schedule_set: "valid_schedule S sched \<Longrightarrow> set sched = set (cells S)"
  unfolding valid_schedule_def by (rule mset_eq_setD)

lemma valid_schedule_length:
  "valid_schedule S sched \<Longrightarrow> wf_space S \<Longrightarrow> int (length sched) = space_size S"
  unfolding valid_schedule_def using length_cells mset_eq_length by fastforce

text \<open>
  Claim C2. The uniform generator over a well-formed container, with a creation functor
  that accepts every candidate and \<open>m \<ge> 0\<close> particles per cell dimension, run over the
  owned cells in any order: it returns the count \<open>c * m^3\<close> for \<open>c\<close> owned cells, and
  the container it leaves has that size, with or without shrink-to-fit. The counts are
  in range: \<open>m * m * m\<close> and \<open>c\<close> fit \<open>int\<close>, and \<open>c * m^3\<close> is a request in range
  for \<open>resize\<close>, so that it fits \<open>int\<close> and the capacity allocated for it does too.
\<close>

theorem uniform_count:
  assumes "0 < vector_length L" and "aosoa_inv L a"
    and "wf_space (owned_cells G)" and "0 \<le> m"
    and "valid_schedule (owned_cells G) sched"
    and "\<forall>pid px pv p. fst (create_functor pid px pv p)"
    and "fits_int (m * m * m)" and "fits_int (space_size (owned_cells G))"
    and "request_in_range L (m * m * m * space_size (owned_cells G))"
  shows "\<exists>a'. createParticles_uniform L G create_functor a m shrink_to_fit sched =
                Inr (space_size (owned_cells G) * m ^ 3, a') \<and>
              aosoa_size a' = space_size (owned_cells G) * m ^ 3 \<and>
              fits_int (space_size (owned_cells G) * m ^ 3)"
proof -
  let ?S = "owned_cells G"
  let ?ppc = "m * m * m"
  let ?N = "?ppc * space_size ?S"
  let ?P = "\<lambda>a. aosoa_inv L a \<and> ?N \<le> aosoa_capacity a"
  have len: "int (length sched) = space_size ?S"
    using assms(5,3) by (rule valid_schedule_length)
  have P1: "?P (resize L a ?N)"
    using inv_resize [OF assms(1,2), of ?N] reserve_capacity_ge [OF assms(1,2), of ?N]
    by (simp add: resize_fields)
  have step: "\<forall>c\<in>set sched. \<forall>k b. ?P b \<and> 0 \<le> k \<and> k + ?ppc \<le> ?N \<longrightarrow>
      (\<exists>b'. uniform_cell L G create_functor m ?ppc c (k, b) = Inr (k + ?ppc, b') \<and> ?P b')"
  proof (intro ballI allI impI)
    fix c k b
    assume "c \<in> set sched" and h: "?P b \<and> 0 \<le> k \<and> k + ?ppc \<le> ?N"
    then have c: "c \<in> set (cells ?S)" using valid_schedule_set [OF assms(5)] by simp
    show "\<exists>b'. uniform_cell L G create_functor m ?ppc c (k, b) = Inr (k + ?ppc, b') \<and> ?P b'"
      using uniform_cell_accept [OF assms(1,4,6) c, of b k] h by blast
  qed
  have "0 \<le> ?ppc" using assms(4) by simp
  then have "\<exists>a2. foldM (uniform_cell L G create_functor m ?ppc) sched (0, resize L a ?N)
               = Inr (0 + int (length sched) * ?ppc, a2) \<and> ?P a2"
    using P1 by (intro foldM_counting [OF _ step]) (simp_all add: len algebra_simps)
  then obtain a2 where a2:
    "foldM (uniform_cell L G create_functor m ?ppc) sched (0, resize L a ?N)
       = Inr (space_size ?S * m ^ 3, a2)"
    by (auto simp: len power3_eq_cube algebra_simps)
  let ?a3 = "resize L a2 (space_size ?S * m ^ 3)"
  let ?a4 = "if shrink_to_fit then shrinkToFit L ?a3 else ?a3"
  have "createParticles_uniform L G create_functor a m shrink_to_fit sched =
      Inr (space_size ?S * m ^ 3, ?a4)"
    by (simp add: createParticles_uniform_def grid_parallel_for_def Let_def a2)
  moreover have "aosoa_size ?a4 = space_size ?S * m ^ 3"
    by (simp add: shrinkToFit_size resize_fields)
  moreover have "fits_int (space_size ?S * m ^ 3)"
    using assms(9) by (simp add: request_in_range_def power3_eq_cube algebra_simps)
  ultimately show ?thesis by blast
qed

theorem uniform_count_witness:
  "0 < vector_length layout4 \<and> aosoa_inv layout4 (AoSoA_default :: int aosoa) \<and>
   wf_space (owned_cells unit_grid) \<and> (0::int) \<le> 2 \<and>
   valid_schedule (owned_cells unit_grid) [(0, 0, 0)] \<and>
   (\<forall>pid px pv p. fst ((\<lambda>pid px pv p. (True, [pid, 1])) pid (px :: point) (pv :: real) (p :: int list))) \<and>
   fits_int (2 * 2 * 2) \<and> fits_int (space_size (owned_cells unit_grid)) \<and>
   request_in_range layout4 (2 * 2 * 2 * space_size (owned_cells unit_grid)) \<and>
   (\<exists>a'. createParticles_uniform layout4 unit_grid (\<lambda>pid px pv p. (True, [pid, 1]))
             AoSoA_default 2 True [(0, 0, 0)] = Inr (space_size (owned_cells unit_grid) * 2 ^ 3, a') \<and>
          aosoa_size a' = space_size (owned_cells unit_grid) * 2 ^ 3 \<and>
          fits_int (space_size (owned_cells unit_grid) * 2 ^ 3))"
proof -
  have w: "0 < vector_length layout4" by (simp add: layout4_def)
  have s: "wf_space (owned_cells unit_grid)" by (simp add: wf_space_def unit_grid_def)
  have m: "(0::int) \<le> 2" by simp
  have v: "valid_schedule (owned_cells unit_grid) [(0, 0, 0)]"
    by (simp add: valid_schedule_def cells_def unit_grid_def upto.simps)
  have f: "\<forall>pid px pv p. fst ((\<lambda>pid px pv p. (True, [pid, 1])) pid (px :: point) (pv :: real) (p :: int list))"
    by simp
  have sz: "space_size (owned_cells unit_grid) = 1"
    by (simp add: space_size_def extent_def unit_grid_def)
  have r: "fits_int (2 * 2 * 2)" "fits_int (space_size (owned_cells unit_grid))"
    "request_in_range layout4 (2 * 2 * 2 * space_size (owned_cells unit_grid))"
    by (simp_all add: sz request_in_range_def fits_int_def INT_MAX_def layout4_def)
  from uniform_count [OF w inv_default s m v f r, of True] w inv_default s m v f r
  show ?thesis by blast
qed




























end
